theory Spec2Isabelle
  imports
    Main
    "HOL-Library.AList"
    "HOL-Library.Char_ord"
    "HOL-Library.List_Lexorder"
    "HOL-Library.Product_Lexorder"
    "HOL-Library.Multiset"
begin

section \<open>Python values used by podenv/env.py\<close>

subsection \<open>Errors\<close>

text \<open>
  Every exception the modelled code can raise is a value. The message of a
  \<open>RuntimeError\<close> is kept without the interpolated arguments.
\<close>

datatype pyerror =
    KeyError string
  | IndexError
  | RuntimeError string
  | FileNotFoundError
  | OSError
  | FormatError
  | ConfigurationError string

subsection \<open>Dictionaries\<close>

text \<open>
  A \<open>dict\<close> is an association list in insertion order with unique keys.
  \<open>d[k] = v\<close> is \<^const>\<open>AList.update\<close>: an existing key keeps its position,
  a new key goes to the end. \<open>d.update(other)\<close> stores the items of \<open>other\<close>
  one after the other.
\<close>

type_synonym ('k, 'v) dict = "('k \<times> 'v) list"

definition dict_update :: "('k, 'v) dict \<Rightarrow> ('k, 'v) dict \<Rightarrow> ('k, 'v) dict" where
  "dict_update d other = fold (\<lambda>(k, v) acc. AList.update k v acc) other d"

text \<open>\<open>caps.get(name)\<close> used as a condition, and \<open>caps.get(name, False)\<close>, on a
  \<open>Dict[str, bool]\<close>: true exactly when the key is bound to \<open>True\<close>.\<close>

definition cap_get :: "(string, bool) dict \<Rightarrow> string \<Rightarrow> bool" where
  "cap_get caps name = (map_of caps name = Some True)"

subsection \<open>Strings\<close>

text \<open>\<open>s.startswith(p)\<close>\<close>

fun startswith :: "string \<Rightarrow> string \<Rightarrow> bool" where
  "startswith s [] = True"
| "startswith [] (p # ps) = False"
| "startswith (c # cs) (p # ps) = (c = p \<and> startswith cs ps)"

text \<open>\<open>sub in s\<close>\<close>

fun str_contains :: "string \<Rightarrow> string \<Rightarrow> bool" where
  "str_contains sub [] = (sub = [])"
| "str_contains sub (c # cs) = (startswith (c # cs) sub \<or> str_contains sub cs)"

text \<open>\<open>s.split(sep)\<close> for a one-character separator: never the empty list.\<close>

fun str_split :: "char \<Rightarrow> string \<Rightarrow> string list" where
  "str_split sep [] = [[]]"
| "str_split sep (c # cs) =
     (if c = sep then [] # str_split sep cs
      else (case str_split sep cs of
              [] \<Rightarrow> [[c]]
            | w # ws \<Rightarrow> (c # w) # ws))"

text \<open>The characters \<open>str.isspace\<close> accepts below code point 256.\<close>

definition isspace :: "char \<Rightarrow> bool" where
  "isspace c = (of_char c \<in> {9, 10, 11, 12, 13, 28, 29, 30, 31, 32, 133, 160 :: nat})"

text \<open>\<open>s.strip()\<close>\<close>

definition str_strip :: "string \<Rightarrow> string" where
  "str_strip s = rev (dropWhile isspace (rev (dropWhile isspace s)))"

text \<open>\<open>s.split()\<close>: the maximal runs of non-space characters.\<close>

fun str_words :: "string \<Rightarrow> string \<Rightarrow> string list" where
  "str_words cur [] = (if cur = [] then [] else [cur])"
| "str_words cur (c # cs) =
     (if isspace c then (if cur = [] then str_words [] cs else cur # str_words [] cs)
      else str_words (cur @ [c]) cs)"

definition str_split_ws :: "string \<Rightarrow> string list" where
  "str_split_ws s = str_words [] s"

text \<open>\<open>s.replace('~/', '')\<close>: every occurrence, left to right.\<close>

fun remove_tilde_slash :: "string \<Rightarrow> string" where
  "remove_tilde_slash (a # b # cs) =
     (if a = CHR ''~'' \<and> b = CHR ''/'' then remove_tilde_slash cs
      else a # remove_tilde_slash (b # cs))"
| "remove_tilde_slash cs = cs"

text \<open>\<open>sep.join(xs)\<close>\<close>

fun str_join :: "string \<Rightarrow> string list \<Rightarrow> string" where
  "str_join sep [] = []"
| "str_join sep [x] = x"
| "str_join sep (x # y # ys) = x @ sep @ str_join sep (y # ys)"

text \<open>\<open>"%s" % n\<close> for a natural number.\<close>

definition digit_char :: "nat \<Rightarrow> char" where
  "digit_char d = char_of (of_char CHR ''0'' + d)"

fun str_of_nat :: "nat \<Rightarrow> string" where
  "str_of_nat n = (if n < 10 then [digit_char n] else str_of_nat (n div 10) @ [digit_char (n mod 10)])"

subsection \<open>pathlib paths\<close>

text \<open>
  A \<open>PurePosixPath\<close> is the list of its parts, the root (\<open>/\<close> or \<open>//\<close>) being
  the first part of an absolute path. Equality, hashing and ordering of paths are
  those of the list of parts, so a \<open>Dict[Path, Path]\<close> is keyed by parts and
  \<open>sorted\<close> compares parts as strings, one after the other.
\<close>

datatype path = Parts (parts: "string list")

instantiation path :: linorder
begin

definition less_eq_path :: "path \<Rightarrow> path \<Rightarrow> bool" where
  "less_eq_path p q = (parts p \<le> parts q)"

definition less_path :: "path \<Rightarrow> path \<Rightarrow> bool" where
  "less_path p q = (parts p < parts q)"

instance
  by standard (auto simp: less_eq_path_def less_path_def path.expand)

end

text \<open>\<open>_PosixFlavour.splitroot\<close>: the root and the rest of one argument string.\<close>

definition splitroot :: "string \<Rightarrow> string \<times> string" where
  "splitroot part =
     (if startswith part ''/'' then
        (let stripped_part = dropWhile (\<lambda>c. c = CHR ''/'') part in
         if length part - length stripped_part = 2 then (''//'', stripped_part)
         else (''/'', stripped_part))
      else ('''', part))"

text \<open>\<open>Path(s)\<close>: empty components and \<open>.\<close> are dropped, \<open>..\<close> is kept.\<close>

definition Path :: "string \<Rightarrow> path" where
  "Path s =
     (let (root, rel) = splitroot s;
          parsed = filter (\<lambda>x. x \<noteq> [] \<and> x \<noteq> ''.'') (str_split CHR ''/'' rel)
      in Parts ((if root \<noteq> [] then [root] else []) @ parsed))"

text \<open>\<open>Path()\<close>, which prints as \<open>.\<close>\<close>

definition Path0 :: path where
  "Path0 = Parts []"

definition has_root :: "path \<Rightarrow> bool" where
  "has_root p = (case parts p of [] \<Rightarrow> False | x # _ \<Rightarrow> startswith x ''/'')"

text \<open>\<open>p / s\<close>: an absolute right operand replaces the left one.\<close>

definition pjoin :: "path \<Rightarrow> string \<Rightarrow> path" where
  "pjoin p s = (let q = Path s in if has_root q then q else Parts (parts p @ parts q))"

text \<open>\<open>str(p)\<close>\<close>

definition pstr :: "path \<Rightarrow> string" where
  "pstr p =
     (case parts p of
        [] \<Rightarrow> ''.''
      | x # xs \<Rightarrow> (if has_root p then x @ str_join ''/'' xs else str_join ''/'' (x # xs)))"

text \<open>\<open>p.name\<close>: the last part, or the empty string for a bare root and for \<open>Path()\<close>.\<close>

definition pname :: "path \<Rightarrow> string" where
  "pname p =
     (if length (parts p) = (if has_root p then 1 else 0) then [] else last (parts p))"

section \<open>The data model\<close>

subsection \<open>The host\<close>

text \<open>
  What the code reads from outside itself: the process environment, the file
  system and the SELinux binding, and two parts of the Python runtime that the
  code leaves open, the iteration order of a \<open>set\<close> of strings and
  \<open>str.format\<close>. They are parameters of every function that uses them.
\<close>

record host =
  os_environ :: "(string, string) dict"  \<comment> \<open>\<open>os.environ\<close>\<close>
  listdir_dev :: "string list"  \<comment> \<open>\<open>os.listdir("/dev")\<close>\<close>
  resolve :: "path \<Rightarrow> path"  \<comment> \<open>\<open>p.expanduser().resolve()\<close>\<close>
  resolve_strict :: "path \<Rightarrow> path option"
    \<comment> \<open>\<open>p.expanduser().resolve(strict=True)\<close>, \<open>None\<close> when it raises\<close>
  is_file :: "path \<Rightarrow> bool"  \<comment> \<open>\<open>p.is_file()\<close>\<close>
  read_text :: "path \<Rightarrow> string option"  \<comment> \<open>\<open>p.read_text()\<close>, \<open>None\<close> when it raises\<close>
  path_exists :: "path \<Rightarrow> bool"  \<comment> \<open>\<open>p.exists()\<close>\<close>
  os_access_r :: "string \<Rightarrow> bool"  \<comment> \<open>\<open>os.access(s, os.R_OK)\<close>\<close>
  HAS_SELINUX :: bool
  getfilecon :: "string \<Rightarrow> string"  \<comment> \<open>\<open>selinux.getfilecon(s)[1]\<close>\<close>
  set_iter :: "string list \<Rightarrow> string list"
    \<comment> \<open>the order in which \<open>for x in set(xs)\<close> visits the elements\<close>
  str_format :: "string \<Rightarrow> (string, string) dict \<Rightarrow> string option"
    \<comment> \<open>\<open>s.format(**d)\<close>, \<open>None\<close> when it raises\<close>

text \<open>All that Python promises of the iteration over \<open>set(xs)\<close>: every element
  of \<open>xs\<close> once. The order depends on the hash seed of the process.\<close>

definition valid_set_iter :: "(string list \<Rightarrow> string list) \<Rightarrow> bool" where
  "valid_set_iter it = (\<forall>xs. distinct (it xs) \<and> set (it xs) = set xs)"

subsection \<open>ExecContext\<close>

record ExecContext =
  environ :: "(string, string) dict"
  mounts :: "(path, path) dict"
  syscaps :: "string list"
  execArgs :: "string list"
  home :: path
  cwd :: path
  xdgDir :: path
  seLinuxLabel :: string
  seccomp :: string
  networkNamespace :: string

text \<open>\<open>ExecContext()\<close>\<close>

definition ExecContext0 :: ExecContext where
  "ExecContext0 =
     \<lparr>environ = [], mounts = [], syscaps = [], execArgs = [], home = Path0, cwd = Path0,
      xdgDir = Path0, seLinuxLabel = [], seccomp = [], networkNamespace = []\<rparr>"

text \<open>\<open>ExecContext.args\<close>\<close>

definition ctx_args :: "ExecContext \<Rightarrow> string list \<Rightarrow> ExecContext" where
  "ctx_args self xs = self\<lparr>execArgs := execArgs self @ xs\<rparr>"

definition hasNetwork :: "ExecContext \<Rightarrow> bool" where
  "hasNetwork self = (networkNamespace self = [] \<or> networkNamespace self \<noteq> ''none'')"

definition hasDirectNetwork :: "ExecContext \<Rightarrow> bool" where
  "hasDirectNetwork self = (networkNamespace self = [] \<or> networkNamespace self = ''host'')"

subsection \<open>Env\<close>

text \<open>The values carried by an \<open>Env\<close> that the modelled code only passes on.\<close>

datatype DesktopEntry = DesktopEntry string path bool string string
datatype Runtime = Runtime nat
datatype taskval = TaskStr string | TaskDict "(string, string) dict"
type_synonym Task = "(string, taskval) dict"
datatype Overlay = OverlayStr string | OverlayDict "(string, string) dict"

text \<open>
  The dataclass \<open>Env\<close>, its fields in the order of declaration. The three
  \<open>Dict\<close> fields have the type parameters \<open>'sd\<close> (\<open>Dict[str, str]\<close>) and
  \<open>'bd\<close> (\<open>Dict[str, bool]\<close>): they are references into a store where the
  code shares and mutates dictionaries between two environments (\<open>applyParent\<close>),
  and the dictionaries themselves where one environment is compiled. \<open>requires\<close>
  is the list that \<open>__post_init__\<close> leaves.
\<close>

record ('sd, 'bd) Env =
  name :: string
  description :: "string option"
  parent :: string
  desktop :: "DesktopEntry option"
  image :: string
  rootfs :: string
  dns :: string
  imageCustomizations :: "string list"
  imageTasks :: "Task list"
  packages :: "string list"
  command :: "string list"
  args :: "string list"
  environ :: 'sd
  syscaps :: "string list"
  mounts :: 'sd
  capabilities :: 'bd
  network :: string
  requires :: "string list"
  overlays :: "Overlay list"
  home :: string
  shmsize :: string
  ports :: "string list"
  runtime :: "Runtime option"
  ctx :: ExecContext
  runDir :: "path option"
  overlaysDir :: "path option"
  manageImage :: bool
  autoUpdate :: bool
  mountCache :: bool
  configFile :: "path option"

type_synonym EnvV = "((string, string) dict, (string, bool) dict) Env"

section \<open>Inheritance: Env.applyParent\<close>

text \<open>
  The store holds the dictionaries that environments refer to. Lists are never
  changed in place by \<open>applyParent\<close> (\<open>+\<close> builds a new list), so they are
  values of the record.
\<close>

type_synonym ref = nat
type_synonym EnvObj = "(ref, ref) Env"

record store =
  strDicts :: "ref \<Rightarrow> (string, string) dict"
  boolDicts :: "ref \<Rightarrow> (string, bool) dict"

text \<open>
  The body of the loop over \<open>fields(Env)\<close>, by the type of the attribute.
  \<open>x in (None, "", [], {})\<close> holds of \<open>None\<close>, of the empty string, list and
  dictionary, and of nothing else: not of \<open>False\<close>, of a \<open>Path\<close> or of an object.
\<close>

definition unset_str :: "string \<Rightarrow> bool" where
  "unset_str s = (s = [])"

definition unset_optstr :: "string option \<Rightarrow> bool" where
  "unset_optstr s = (s = None \<or> s = Some [])"

definition unset_opt :: "'a option \<Rightarrow> bool" where
  "unset_opt x = (x = None)"

text \<open>An attribute whose parent value is neither a list nor a dictionary: only the
  first branch can apply.\<close>

definition inherit_value :: "('a \<Rightarrow> bool) \<Rightarrow> 'a \<Rightarrow> 'a \<Rightarrow> 'a" where
  "inherit_value unset mine theirs = (if unset mine then theirs else mine)"

text \<open>A list attribute other than \<open>command\<close>.\<close>

definition inherit_list :: "'a list \<Rightarrow> 'a list \<Rightarrow> 'a list" where
  "inherit_list mine theirs = (if mine = [] then theirs else mine @ theirs)"

text \<open>The attribute \<open>command\<close>: the \<open>continue\<close> sits in the list branch, after the
  test for an empty value.\<close>

definition inherit_command :: "string list \<Rightarrow> string list \<Rightarrow> string list" where
  "inherit_command mine theirs = (if mine = [] then theirs else mine)"

text \<open>
  A dictionary attribute. \<open>mergedDict\<close> is the parent's dictionary itself, not a
  copy: \<open>update\<close> writes into it, and the child is then bound to that same object.
  The result is the new store and the reference the child holds.
\<close>

definition inherit_dict ::
  "(ref \<Rightarrow> ('k, 'v) dict) \<Rightarrow> ref \<Rightarrow> ref \<Rightarrow> (ref \<Rightarrow> ('k, 'v) dict) \<times> ref" where
  "inherit_dict dicts mine theirs =
     (if dicts mine = [] then (dicts, theirs)
      else (dicts(theirs := dict_update (dicts theirs) (dicts mine)), theirs))"

text \<open>
  \<open>self.applyParent(parentEnv)\<close>: the attributes in the order of \<open>fields(Env)\<close>,
  \<open>name\<close> and \<open>parent\<close> skipped. The booleans and \<open>ctx\<close> are never equal to an
  empty value and are neither lists nor dictionaries, so the loop leaves them.
  Only attributes of \<open>self\<close> are assigned; the parent changes through the store.
\<close>

definition applyParent :: "store \<Rightarrow> EnvObj \<Rightarrow> EnvObj \<Rightarrow> store \<times> EnvObj" where
  "applyParent st self parentEnv =
     (let self = self\<lparr>description := inherit_value unset_optstr (description self) (description parentEnv)\<rparr>;
          self = self\<lparr>desktop := inherit_value unset_opt (desktop self) (desktop parentEnv)\<rparr>;
          self = self\<lparr>image := inherit_value unset_str (Env.image self) (Env.image parentEnv)\<rparr>;
          self = self\<lparr>rootfs := inherit_value unset_str (rootfs self) (rootfs parentEnv)\<rparr>;
          self = self\<lparr>dns := inherit_value unset_str (dns self) (dns parentEnv)\<rparr>;
          self = self\<lparr>imageCustomizations :=
                   inherit_list (imageCustomizations self) (imageCustomizations parentEnv)\<rparr>;
          self = self\<lparr>imageTasks := inherit_list (imageTasks self) (imageTasks parentEnv)\<rparr>;
          self = self\<lparr>packages := inherit_list (packages self) (packages parentEnv)\<rparr>;
          self = self\<lparr>command := inherit_command (command self) (command parentEnv)\<rparr>;
          self = self\<lparr>args := inherit_list (args self) (args parentEnv)\<rparr>;
          (sd, r) = inherit_dict (strDicts st) (Env.environ self) (Env.environ parentEnv);
          st = st\<lparr>strDicts := sd\<rparr>;
          self = self\<lparr>Env.environ := r\<rparr>;
          self = self\<lparr>Env.syscaps := inherit_list (Env.syscaps self) (Env.syscaps parentEnv)\<rparr>;
          (sd, r) = inherit_dict (strDicts st) (Env.mounts self) (Env.mounts parentEnv);
          st = st\<lparr>strDicts := sd\<rparr>;
          self = self\<lparr>Env.mounts := r\<rparr>;
          (bd, r) = inherit_dict (boolDicts st) (capabilities self) (capabilities parentEnv);
          st = st\<lparr>boolDicts := bd\<rparr>;
          self = self\<lparr>capabilities := r\<rparr>;
          self = self\<lparr>network := inherit_value unset_str (network self) (network parentEnv)\<rparr>;
          self = self\<lparr>requires := inherit_list (requires self) (requires parentEnv)\<rparr>;
          self = self\<lparr>overlays := inherit_list (overlays self) (overlays parentEnv)\<rparr>;
          self = self\<lparr>Env.home := inherit_value unset_str (Env.home self) (Env.home parentEnv)\<rparr>;
          self = self\<lparr>shmsize := inherit_value unset_str (shmsize self) (shmsize parentEnv)\<rparr>;
          self = self\<lparr>ports := inherit_list (ports self) (ports parentEnv)\<rparr>;
          self = self\<lparr>runtime := inherit_value unset_opt (runtime self) (runtime parentEnv)\<rparr>;
          self = self\<lparr>runDir := inherit_value unset_opt (runDir self) (runDir parentEnv)\<rparr>;
          self = self\<lparr>overlaysDir := inherit_value unset_opt (overlaysDir self) (overlaysDir parentEnv)\<rparr>;
          self = self\<lparr>configFile := inherit_value unset_opt (configFile self) (configFile parentEnv)\<rparr>
      in (st, self))"

text \<open>The environment as its fields read through the store.\<close>

definition snapshot :: "store \<Rightarrow> EnvObj \<Rightarrow> EnvV" where
  "snapshot st e =
     \<lparr>name = name e, description = description e, parent = parent e, desktop = desktop e,
      image = Env.image e, rootfs = rootfs e, dns = dns e,
      imageCustomizations = imageCustomizations e, imageTasks = imageTasks e,
      packages = packages e, command = command e, args = args e,
      environ = strDicts st (Env.environ e), syscaps = Env.syscaps e,
      mounts = strDicts st (Env.mounts e), capabilities = boolDicts st (capabilities e),
      network = network e, requires = requires e, overlays = overlays e, home = Env.home e,
      shmsize = shmsize e, ports = ports e, runtime = runtime e, ctx = ctx e,
      runDir = runDir e, overlaysDir = overlaysDir e, manageImage = manageImage e,
      autoUpdate = autoUpdate e, mountCache = mountCache e, configFile = configFile e\<rparr>"

section \<open>The capability handlers\<close>

text \<open>
  A handler is called as \<open>capability(active, env.ctx, env)\<close> and changes the
  context, the environment or both in place; here it returns both, or the
  exception it raises. No handler reaches the context through \<open>env.ctx\<close>, so
  the caller stores the returned context back into the environment
  (\<open>call_cap\<close>).
\<close>

type_synonym Capability =
  "host \<Rightarrow> bool \<Rightarrow> ExecContext \<Rightarrow> EnvV \<Rightarrow> pyerror + ExecContext \<times> EnvV"

text \<open>\<open>os.environ[key]\<close>\<close>

definition os_environ_get :: "host \<Rightarrow> string \<Rightarrow> pyerror + string" where
  "os_environ_get h key =
     (case map_of (os_environ h) key of None \<Rightarrow> Inl (KeyError key) | Some v \<Rightarrow> Inr v)"

definition rootCap :: Capability where
  "rootCap h active cx env =
     (let cx = (if active then cx\<lparr>ExecContext.home := Path ''/root'', xdgDir := Path ''/run/user/0''\<rparr>
                 else ctx_args (cx\<lparr>ExecContext.home := Path ''/home/user'',
                                     xdgDir := Path ''/run/user/1000''\<rparr>) [''--user'', ''1000'']);
          cx = cx\<lparr>ExecContext.environ :=
                  AList.update ''XDG_RUNTIME_DIR'' (pstr (xdgDir cx)) (ExecContext.environ cx)\<rparr>;
          cx = cx\<lparr>ExecContext.environ :=
                  AList.update ''HOME'' (pstr (ExecContext.home cx)) (ExecContext.environ cx)\<rparr>
      in Inr (cx, env))"

definition getUidMap :: "EnvV \<Rightarrow> string list" where
  "getUidMap env =
     [''--uidmap'', ''1000:0:1'', ''--uidmap'', ''0:1:999'',
      ''--uidmap'', ''1001:1001:'' @ str_of_nat (2 ^ 16 - 1001)]"

definition uidmapCap :: Capability where
  "uidmapCap h active cx env =
     Inr (if active then cx\<lparr>execArgs := execArgs cx @ getUidMap env\<rparr> else cx, env)"

definition privilegedCap :: Capability where
  "privilegedCap h active cx env =
     Inr (if active then ctx_args cx [''--privileged''] else cx, env)"

definition terminalCap :: Capability where
  "terminalCap h active cx env =
     Inr (if active then ctx_args (ctx_args cx [''-it'']) [''--detach-keys'', ''ctrl-e,e'']
          else cx, env)"

definition networkCap :: Capability where
  "networkCap h active cx env =
     (let cx = (if network env \<noteq> [] then
                   cx\<lparr>networkNamespace := ''container:net-'' @ network env\<rparr> else cx);
          cx = (if \<not> active \<and> network env = [] then cx\<lparr>networkNamespace := ''none''\<rparr> else cx)
      in Inr (cx, env))"

definition manageImageCap :: Capability where
  "manageImageCap h active cx env = Inr (cx, env\<lparr>manageImage := active\<rparr>)"

definition mountCwdCap :: Capability where
  "mountCwdCap h active cx env =
     Inr (if active then
            (let cx = cx\<lparr>cwd := Path ''/data''\<rparr>
             in cx\<lparr>ExecContext.mounts := AList.update (cwd cx) Path0 (ExecContext.mounts cx)\<rparr>)
          else cx, env)"

text \<open>A \<open>Path\<close> is never false, so \<open>not ctx.mounts.get(k)\<close> says that \<open>k\<close> is not a key.\<close>

definition mountRunCap :: Capability where
  "mountRunCap h active cx env =
     (if active then
        (case runDir env of
           None \<Rightarrow> Inl (RuntimeError (''runDir isn'' @ [char_of (39 :: nat)] @ ''t set''))
         | Some rd \<Rightarrow>
            (let cx = (if map_of (ExecContext.mounts cx) (ExecContext.home cx) = None
                           \<and> Env.home env = []
                        then cx\<lparr>ExecContext.mounts :=
                                  AList.update (ExecContext.home cx) (pjoin rd ''home'')
                                    (ExecContext.mounts cx)\<rparr>
                        else cx);
                 cx = (if map_of (ExecContext.mounts cx) (Path ''/tmp'') = None
                        then cx\<lparr>ExecContext.mounts :=
                                  AList.update (Path ''/tmp'') (pjoin rd ''tmp'')
                                    (ExecContext.mounts cx)\<rparr>
                        else cx)
             in Inr (cx, env)))
      else Inr (cx, env))"

definition mountCacheCap :: Capability where
  "mountCacheCap h active cx env = Inr (cx, if active then env\<lparr>mountCache := True\<rparr> else env)"

definition ipcCap :: Capability where
  "ipcCap h active cx env = Inr (if active then ctx_args cx [''--ipc=host''] else cx, env)"

definition x11Cap :: Capability where
  "x11Cap h active cx env =
     (if active then
        (let cx = cx\<lparr>ExecContext.mounts :=
                       AList.update (Path ''/tmp/.X11-unix'') (Path ''/tmp/.X11-unix'')
                         (ExecContext.mounts cx)\<rparr>
         in case os_environ_get h ''DISPLAY'' of
              Inl e \<Rightarrow> Inl e
            | Inr display \<Rightarrow>
                Inr (cx\<lparr>ExecContext.environ :=
                          AList.update ''DISPLAY'' display (ExecContext.environ cx)\<rparr>, env))
      else Inr (cx, env))"

definition pulseaudioCap :: Capability where
  "pulseaudioCap h active cx env =
     (if active then
        (let cx = cx\<lparr>ExecContext.mounts :=
                       AList.update (Path ''/etc/machine-id:ro'') (Path ''/etc/machine-id'')
                         (ExecContext.mounts cx)\<rparr>
         in case os_environ_get h ''XDG_RUNTIME_DIR'' of
              Inl e \<Rightarrow> Inl e
            | Inr xdg \<Rightarrow>
               (let cx = cx\<lparr>ExecContext.mounts :=
                              AList.update (pjoin (xdgDir cx) ''pulse'') (pjoin (Path xdg) ''pulse'')
                                (ExecContext.mounts cx)\<rparr>;
                    cx = cx\<lparr>ExecContext.environ :=
                              AList.update ''PULSE_SERVER''
                                (pstr (pjoin (pjoin (xdgDir cx) ''pulse'') ''native''))
                                (ExecContext.environ cx)\<rparr>
                in Inr (cx, env)))
      else Inr (cx, env))"

text \<open>One line of \<open>.gitconfig\<close> in the loop of \<open>gitCap\<close>.\<close>

definition gitCap_line :: "host \<Rightarrow> string \<Rightarrow> ExecContext \<Rightarrow> pyerror + ExecContext" where
  "gitCap_line h raw cx =
     (let line = str_strip raw in
      if startswith line ''excludesfile'' then
        (case str_split CHR ''='' line of
           _ # field # _ \<Rightarrow>
             (let excludeFileName = str_strip field;
                  excludeFile = resolve h (Path excludeFileName)
              in Inr (if is_file h excludeFile then
                        cx\<lparr>ExecContext.mounts :=
                              AList.update
                                (pjoin (ExecContext.home cx) (remove_tilde_slash excludeFileName))
                                excludeFile (ExecContext.mounts cx)\<rparr>
                      else cx))
         | _ \<Rightarrow> Inl IndexError)
      else if str_contains ''store --file'' line then
        (case rev (str_split_ws line) of
           [] \<Rightarrow> Inl IndexError
         | storeFileName # _ \<Rightarrow>
             (let storeFile = resolve h (Path storeFileName)
              in Inr (if is_file h storeFile then
                        cx\<lparr>ExecContext.mounts :=
                              AList.update
                                (pjoin (ExecContext.home cx) (remove_tilde_slash storeFileName))
                                storeFile (ExecContext.mounts cx)\<rparr>
                      else cx)))
      else Inr cx)"

text \<open>A \<open>for\<close> loop whose body may raise.\<close>

fun for_each :: "('a \<Rightarrow> 's \<Rightarrow> pyerror + 's) \<Rightarrow> 'a list \<Rightarrow> 's \<Rightarrow> pyerror + 's" where
  "for_each body [] s = Inr s"
| "for_each body (x # xs) s =
     (case body x s of Inl e \<Rightarrow> Inl e | Inr s' \<Rightarrow> for_each body xs s')"

definition gitCap :: Capability where
  "gitCap h active cx env =
     (if active then
        (let gitconfigFile = resolve h (Path ''~/.gitconfig'') in
         if is_file h gitconfigFile then
           (let cx = cx\<lparr>ExecContext.mounts :=
                          AList.update (pjoin (ExecContext.home cx) ''.gitconfig'') gitconfigFile
                            (ExecContext.mounts cx)\<rparr>
            in case read_text h gitconfigFile of
                 None \<Rightarrow> Inl OSError
               | Some content \<Rightarrow>
                  (case for_each (gitCap_line h) (str_split (char_of (10 :: nat)) content) cx of
                     Inl e \<Rightarrow> Inl e
                   | Inr cx \<Rightarrow> Inr (cx, env)))
         else Inr (cx, env))
      else Inr (cx, env))"

definition editorCap :: Capability where
  "editorCap h active cx env =
     Inr (if active then
            (cx\<lparr>ExecContext.environ :=
                  AList.update ''EDITOR''
                    (case map_of (os_environ h) ''EDITOR'' of None \<Rightarrow> ''vi'' | Some v \<Rightarrow> v)
                    (ExecContext.environ cx)\<rparr>,
             env\<lparr>packages := packages env @ [''vi'']\<rparr>)
          else (cx, env))"

definition sshCap :: Capability where
  "sshCap h active cx env =
     (if active then
        (case os_environ_get h ''SSH_AUTH_SOCK'' of
           Inl e \<Rightarrow> Inl e
         | Inr sock \<Rightarrow>
            (let cx = cx\<lparr>ExecContext.environ :=
                           AList.update ''SSH_AUTH_SOCK'' sock (ExecContext.environ cx)\<rparr>;
                 sshSockPath = Path sock;
                 cx = cx\<lparr>ExecContext.mounts :=
                           AList.update sshSockPath sshSockPath (ExecContext.mounts cx)\<rparr>;
                 cx = cx\<lparr>ExecContext.mounts :=
                           AList.update (pjoin (ExecContext.home cx) ''.ssh'') (Path ''~/.ssh'')
                             (ExecContext.mounts cx)\<rparr>
             in Inr (cx, env)))
      else Inr (cx, env))"

definition gpgCap :: Capability where
  "gpgCap h active cx env =
     (if active then
        (case os_environ_get h ''XDG_RUNTIME_DIR'' of
           Inl e \<Rightarrow> Inl e
         | Inr xdg \<Rightarrow>
            (let gpgSockDir = pjoin (Path xdg) ''gnupg'';
                 cx = cx\<lparr>ExecContext.mounts :=
                           AList.update (pjoin (xdgDir cx) ''gnupg'') gpgSockDir
                             (ExecContext.mounts cx)\<rparr>;
                 cx = cx\<lparr>ExecContext.mounts :=
                           AList.update (pjoin (ExecContext.home cx) ''.gnupg'') (Path ''~/.gnupg'')
                             (ExecContext.mounts cx)\<rparr>
             in Inr (cx, env)))
      else Inr (cx, env))"

definition webcamCap :: Capability where
  "webcamCap h active cx env =
     Inr (if active then
            fold (\<lambda>device cx. ctx_args cx [''--device'', pstr (pjoin (Path ''/dev'') device)])
              (filter (\<lambda>x. startswith x ''video'') (listdir_dev h)) cx
          else cx, env)"

definition driCap :: Capability where
  "driCap h active cx env =
     Inr (if active then ctx_args cx [''--device'', ''/dev/dri''] else cx, env)"

definition kvmCap :: Capability where
  "kvmCap h active cx env =
     Inr (if active then ctx_args cx [''--device'', ''/dev/kvm''] else cx, env)"

definition tunCap :: Capability where
  "tunCap h active cx env =
     Inr (if active then ctx_args cx [''--device'', ''/dev/net/tun''] else cx, env)"

definition selinuxCap :: Capability where
  "selinuxCap h active cx env =
     Inr (if \<not> active then cx\<lparr>seLinuxLabel := ''disable''\<rparr> else cx, env)"

definition seccompCap :: Capability where
  "seccompCap h active cx env =
     Inr (if \<not> active then cx\<lparr>seccomp := ''unconfined''\<rparr> else cx, env)"

definition ptraceCap :: Capability where
  "ptraceCap h active cx env =
     Inr (if active then
            cx\<lparr>ExecContext.syscaps := ExecContext.syscaps cx @ [''SYS_PTRACE'']\<rparr>
          else cx, env)"

definition setuidCap :: Capability where
  "setuidCap h active cx env =
     Inr (if active then
            fold (\<lambda>cap cx. cx\<lparr>ExecContext.syscaps := ExecContext.syscaps cx @ [cap]\<rparr>)
              [''SETUID'', ''SETGID''] cx
          else cx, env)"

definition autoUpdateCap :: Capability where
  "autoUpdateCap h active cx env = Inr (cx, if active then env\<lparr>autoUpdate := True\<rparr> else env)"

subsection \<open>The catalogue\<close>

text \<open>\<open>re.sub('([A-Z]+)', r'-\1', name).lower()\<close>: a hyphen before every maximal run
  of capital letters, then lower case (of the code points below 256).\<close>

definition isupper_ascii :: "char \<Rightarrow> bool" where
  "isupper_ascii c = (of_char CHR ''A'' \<le> (of_char c :: nat) \<and> (of_char c :: nat) \<le> of_char CHR ''Z'')"

definition char_lower :: "char \<Rightarrow> char" where
  "char_lower c =
     (let n = (of_char c :: nat) in
      if (65 \<le> n \<and> n \<le> 90) \<or> (192 \<le> n \<and> n \<le> 222 \<and> n \<noteq> 215) then char_of (n + 32) else c)"

fun hyphen_runs :: "bool \<Rightarrow> string \<Rightarrow> string" where
  "hyphen_runs in_run [] = []"
| "hyphen_runs in_run (c # cs) =
     (if isupper_ascii c then (if in_run then [c] else [CHR ''-'', c]) @ hyphen_runs True cs
      else c # hyphen_runs False cs)"

definition camelCaseToHyphen :: "string \<Rightarrow> string" where
  "camelCaseToHyphen s = map char_lower (hyphen_runs False s)"

text \<open>The functions of the catalogue with their \<open>__name__\<close> and \<open>__doc__\<close>, in the
  order of the source.\<close>

definition capability_funcs :: "(string \<times> string \<times> Capability) list" where
  "capability_funcs =
     [(''manageImageCap'', ''manage the image with buildah'', manageImageCap),
      (''rootCap'', ''run as root'', rootCap),
      (''privilegedCap'', ''run as privileged container'', privilegedCap),
      (''terminalCap'', ''interactive mode'', terminalCap),
      (''ipcCap'', ''share host ipc'', ipcCap),
      (''x11Cap'', ''share x11 socket'', x11Cap),
      (''pulseaudioCap'', ''share pulseaudio socket'', pulseaudioCap),
      (''gitCap'', ''share .gitconfig and excludesfile'', gitCap),
      (''editorCap'', ''setup editor env'', editorCap),
      (''sshCap'', ''share ssh agent and keys'', sshCap),
      (''gpgCap'', ''share gpg agent'', gpgCap),
      (''webcamCap'', ''share webcam device'', webcamCap),
      (''driCap'', ''share graphic device'', driCap),
      (''kvmCap'', ''share kvm device'', kvmCap),
      (''tunCap'', ''share tun device'', tunCap),
      (''seccompCap'', ''enable seccomp'', seccompCap),
      (''selinuxCap'', ''enable SELinux'', selinuxCap),
      (''setuidCap'', ''enable setuid'', setuidCap),
      (''ptraceCap'', ''enable ptrace'', ptraceCap),
      (''networkCap'', ''enable network'', networkCap),
      (''mountCwdCap'', ''mount cwd to /data'', mountCwdCap),
      (''mountRunCap'', ''mount home and tmp to host tmpfs'', mountRunCap),
      (''mountCacheCap'', ''mount image build cache'', mountCacheCap),
      (''autoUpdateCap'', ''keep environment updated'', autoUpdateCap),
      (''uidmapCap'', ''map host uid'', uidmapCap)]"

definition Capabilities :: "(string \<times> string \<times> Capability) list" where
  "Capabilities =
     map (\<lambda>(func_name, doc, func).
            (camelCaseToHyphen (take (length func_name - 3) func_name), doc, func))
       capability_funcs"

definition ValidCap :: "string set" where
  "ValidCap = set (map fst Capabilities)"

text \<open>\<open>capability(active, env.ctx, env)\<close>\<close>

definition call_cap :: "Capability \<Rightarrow> host \<Rightarrow> bool \<Rightarrow> EnvV \<Rightarrow> pyerror + EnvV" where
  "call_cap capability h active env =
     (case capability h active (ctx env) env of
        Inl e \<Rightarrow> Inl e
      | Inr (c, env') \<Rightarrow> Inr (env'\<lparr>ctx := c\<rparr>))"

text \<open>The first loop of \<open>prepareEnv\<close>, over any list of catalogue entries.\<close>

definition applyCapabilities ::
  "host \<Rightarrow> (string \<times> string \<times> Capability) list \<Rightarrow> EnvV \<Rightarrow> pyerror + EnvV" where
  "applyCapabilities h caps env =
     for_each (\<lambda>(name, doc, capability) env.
                 call_cap capability h (cap_get (capabilities env) name) env) caps env"

text \<open>Sequencing of steps that may raise.\<close>

definition seq :: "pyerror + 'a \<Rightarrow> ('a \<Rightarrow> pyerror + 'b) \<Rightarrow> pyerror + 'b" where
  "seq m f = (case m of Inl e \<Rightarrow> Inl e | Inr x \<Rightarrow> f x)"

section \<open>validateEnv\<close>

text \<open>The calls of \<open>warn\<close>, in order, with the values interpolated into the message.\<close>

datatype warning =
    SELinuxDisabledForCap string
  | UIDMapRequired string
  | NetAdminNeeded
  | SELinuxDisabledForLabel path
  | NotReadable path
  | OverlayNeedsHome
  | ManageImageForPackages
  | ManageImageForTasks

type_synonym vstate = "EnvV \<times> warning list"

text \<open>Check if SELinux will block socket access. The outer test is made once, so
  every requested capability of the three warns.\<close>

definition check_selinux_sockets :: "host \<Rightarrow> vstate \<Rightarrow> pyerror + vstate" where
  "check_selinux_sockets h s =
     (if cap_get (capabilities (fst s)) ''selinux'' then
        for_each (\<lambda>cap (env, ws).
            if cap_get (capabilities env) cap then
              seq (call_cap selinuxCap h False env) (\<lambda>env.
                Inr (env\<lparr>capabilities := AList.update ''selinux'' False (capabilities env)\<rparr>,
                     ws @ [SELinuxDisabledForCap cap]))
            else Inr (env, ws))
          [''x11'', ''tun'', ''pulseaudio''] s
      else Inr s)"

text \<open>Check for uid permissions. The loop stops at the first requested capability.\<close>

definition check_uid :: "host \<Rightarrow> vstate \<Rightarrow> pyerror + vstate" where
  "check_uid h s =
     (case s of (env, ws) \<Rightarrow>
        if \<not> cap_get (capabilities env) ''root'' \<and> \<not> cap_get (capabilities env) ''uidmap'' then
          (case find (cap_get (capabilities env)) [''x11'', ''pulseaudio'', ''ssh'', ''gpg''] of
             None \<Rightarrow> Inr (env, ws)
           | Some cap \<Rightarrow>
               seq (call_cap uidmapCap h True env) (\<lambda>env. Inr (env, ws @ [UIDMapRequired cap])))
        else Inr (env, ws))"

text \<open>Check for system capabilities.\<close>

definition check_syscaps :: "host \<Rightarrow> vstate \<Rightarrow> pyerror + vstate" where
  "check_syscaps h s =
     (case s of (env, ws) \<Rightarrow>
        if cap_get (capabilities env) ''tun'' \<and> ''NET_ADMIN'' \<notin> set (ExecContext.syscaps (ctx env))
        then Inr (env\<lparr>ctx := (ctx env)\<lparr>ExecContext.syscaps :=
                                        ExecContext.syscaps (ctx env) @ [''NET_ADMIN'']\<rparr>\<rparr>,
                  ws @ [NetAdminNeeded])
        else Inr (env, ws))"

text \<open>\<open>selinux.getfilecon(str(hostPath))[1].split(':')[2] != label\<close>\<close>

definition label_differs :: "host \<Rightarrow> path \<Rightarrow> pyerror + bool" where
  "label_differs h hostPath =
     (case str_split CHR '':'' (getfilecon h (pstr hostPath)) of
        _ # _ # t # _ \<Rightarrow> Inr (t \<noteq> ''container_file_t'')
      | _ \<Rightarrow> Inl IndexError)"

text \<open>Check mount points labels.\<close>

definition check_mount_labels :: "host \<Rightarrow> vstate \<Rightarrow> pyerror + vstate" where
  "check_mount_labels h s =
     (if cap_get (capabilities (fst s)) ''selinux'' \<and> HAS_SELINUX h then
        for_each (\<lambda>hostPath (env, ws).
            (let hostPath = resolve h hostPath in
             if path_exists h hostPath then
               seq (label_differs h hostPath) (\<lambda>differs.
                 if differs then
                   seq (call_cap selinuxCap h False env) (\<lambda>env.
                     Inr (env, ws @ [SELinuxDisabledForLabel hostPath]))
                 else Inr (env, ws))
             else Inr (env, ws)))
          (map snd (ExecContext.mounts (ctx (fst s)))) s
      else Inr s)"

text \<open>Check mount points permissions.\<close>

definition check_mount_perms :: "host \<Rightarrow> vstate \<Rightarrow> pyerror + vstate" where
  "check_mount_perms h s =
     for_each (\<lambda>hostPath (env, ws).
         (let hostPath = resolve h hostPath in
          if path_exists h hostPath \<and> \<not> os_access_r h (pstr hostPath)
          then Inr (env, ws @ [NotReadable hostPath]) else Inr (env, ws)))
       (map snd (ExecContext.mounts (ctx (fst s)))) s"

text \<open>Check for home mount point.\<close>

definition check_home_mount :: "host \<Rightarrow> vstate \<Rightarrow> pyerror + vstate" where
  "check_home_mount h s =
     (case s of (env, ws) \<Rightarrow>
        if overlays env \<noteq> []
           \<and> map_of (ExecContext.mounts (ctx env)) (ExecContext.home (ctx env)) = None
        then seq (call_cap mountRunCap h True env) (\<lambda>env. Inr (env, ws @ [OverlayNeedsHome]))
        else Inr (env, ws))"

text \<open>Check for image management. The outer test is made once.\<close>

definition check_image_management :: "host \<Rightarrow> vstate \<Rightarrow> pyerror + vstate" where
  "check_image_management h s =
     (case s of (env, ws) \<Rightarrow>
        if \<not> manageImage env then
          seq (if packages env \<noteq> [] then
                 seq (call_cap manageImageCap h True env) (\<lambda>env.
                   Inr (env, ws @ [ManageImageForPackages]))
               else Inr (env, ws))
            (\<lambda>(env, ws).
               if imageCustomizations env \<noteq> [] \<or> imageTasks env \<noteq> [] then
                 seq (call_cap manageImageCap h True env) (\<lambda>env.
                   Inr (env, ws @ [ManageImageForTasks]))
               else Inr (env, ws))
        else Inr (env, ws))"

text \<open>\<open>validateEnv(env)\<close>: the environment after the corrections and the warnings
  printed, or the exception raised.\<close>

definition validateEnv :: "host \<Rightarrow> EnvV \<Rightarrow> pyerror + vstate" where
  "validateEnv h env =
     seq (check_selinux_sockets h (env, [])) (\<lambda>s.
     seq (check_uid h s) (\<lambda>s.
     seq (check_syscaps h s) (\<lambda>s.
     seq (check_mount_labels h s) (\<lambda>s.
     seq (check_mount_perms h s) (\<lambda>s.
     seq (check_home_mount h s) (\<lambda>s.
     check_image_management h s))))))"

section \<open>The argument vector\<close>

text \<open>The three loops of \<open>ExecContext.getArgs\<close>.\<close>

definition mount_flags :: "host \<Rightarrow> ExecContext \<Rightarrow> string list" where
  "mount_flags h self =
     concat (map (\<lambda>mount.
                    case map_of (ExecContext.mounts self) mount of
                      None \<Rightarrow> []
                    | Some hostPath \<Rightarrow> [''-v'', pstr (resolve h hostPath) @ '':'' @ pstr mount])
              (sort (map fst (ExecContext.mounts self))))"

definition syscap_flags :: "host \<Rightarrow> ExecContext \<Rightarrow> string list" where
  "syscap_flags h self =
     concat (map (\<lambda>cap. [''--cap-add'', cap]) (set_iter h (ExecContext.syscaps self)))"

definition environ_flags :: "ExecContext \<Rightarrow> string list" where
  "environ_flags self =
     concat (map (\<lambda>(e, v). [''-e'', e @ ''='' @ v]) (sort (ExecContext.environ self)))"

text \<open>\<open>self.getArgs()\<close>: the context, whose \<open>cwd\<close> the call may assign, and the
  arguments. The key of a lookup in \<open>mount_flags\<close> comes from the dictionary
  itself, so the lookup finds it.\<close>

definition getArgs :: "host \<Rightarrow> ExecContext \<Rightarrow> ExecContext \<times> string list" where
  "getArgs h self =
     (let args = [];
          args = (if seLinuxLabel self \<noteq> [] then
                    args @ [''--security-opt'', ''label='' @ seLinuxLabel self] else args);
          args = (if seccomp self \<noteq> [] then
                    args @ [''--security-opt'', ''seccomp='' @ seccomp self] else args);
          args = (if networkNamespace self \<noteq> [] then
                    args @ [''--network'', networkNamespace self] else args);
          self = (if cwd self = Path0 then self\<lparr>cwd := ExecContext.home self\<rparr> else self);
          args = args @ [''--workdir'', pstr (cwd self)];
          args = args @ mount_flags h self;
          args = args @ syscap_flags h self;
          args = args @ environ_flags self
      in (self, args @ execArgs self))"

text \<open>Look for file argument requirement: the environment, the caller's list after
  \<open>pop\<close>, and \<open>fileArg\<close>.\<close>

definition file_argument ::
  "host \<Rightarrow> EnvV \<Rightarrow> string list \<Rightarrow> pyerror + EnvV \<times> string list \<times> path option" where
  "file_argument h env cliArgs =
     (if ''$1'' \<in> set (command env) then
        (if length cliArgs > 1 then Inl (RuntimeError ''Multiple file input'')
         else if cliArgs \<noteq> [] then
           (case resolve_strict h (Path (last cliArgs)) of
              None \<Rightarrow> Inl FileNotFoundError
            | Some fileArg \<Rightarrow>
                Inr (env\<lparr>ctx := (ctx env)\<lparr>ExecContext.mounts :=
                             AList.update (pjoin (Path ''/tmp'') (pname fileArg)) fileArg
                               (ExecContext.mounts (ctx env))\<rparr>\<rparr>,
                     butlast cliArgs, Some fileArg))
         else Inr (env, cliArgs, None))
      else Inr (env, cliArgs, None))"

text \<open>The loop over the command template. A \<open>Path\<close> is never false, so
  \<open>and fileArg\<close> says that \<open>fileArg\<close> is not \<open>None\<close>.\<close>

definition command_args :: "string list \<Rightarrow> string list \<Rightarrow> path option \<Rightarrow> string list" where
  "command_args template cliArgs fileArg =
     fold (\<lambda>tok commandArgs.
             if tok = ''$@'' \<and> cliArgs \<noteq> [] then commandArgs @ cliArgs
             else (case (tok = ''$1'', fileArg) of
                     (True, Some f) \<Rightarrow> commandArgs @ [''/tmp/'' @ pname f]
                   | _ \<Rightarrow> commandArgs @ [tok]))
       template []"

text \<open>What a call of \<open>prepareEnv\<close> leaves: the environment and the caller's
  \<open>cliArgs\<close> as mutated, the warnings printed, and the returned triple.\<close>

record prepared =
  env_after :: EnvV
  cliArgs_after :: "string list"
  warnings :: "warning list"
  result :: "string \<times> string list \<times> string list"

text \<open>Apply extra settings from the environment definition: the environment and
  the first arguments, \<open>args\<close>.\<close>

definition apply_settings :: "host \<Rightarrow> EnvV \<Rightarrow> pyerror + EnvV \<times> string list" where
  "apply_settings h env =
     (let args = [''--hostname'', name env];
          args = (if dns env \<noteq> [] \<and> hasDirectNetwork (ctx env)
                  then args @ [''--dns='' @ dns env] else args);
          args = (if shmsize env \<noteq> [] then args @ [''--shm-size='' @ shmsize env] else args);
          env = (if Env.home env \<noteq> [] then
                   env\<lparr>ctx := (ctx env)\<lparr>ExecContext.mounts :=
                           AList.update (ExecContext.home (ctx env)) (resolve h (Path (Env.home env)))
                             (ExecContext.mounts (ctx env))\<rparr>\<rparr>
                 else env)
      in
      seq (for_each (\<lambda>port args.
                       case str_format h port (Env.environ env) of
                         None \<Rightarrow> Inl FormatError
                       | Some port \<Rightarrow> Inr (args @ [''--publish='' @ port]))
             (ports env) args) (\<lambda>args.
      let env = env\<lparr>ctx := (ctx env)\<lparr>ExecContext.syscaps :=
                      ExecContext.syscaps (ctx env) @ Env.syscaps env\<rparr>\<rparr>;
          env = env\<lparr>ctx := (ctx env)\<lparr>ExecContext.environ :=
                      dict_update (ExecContext.environ (ctx env)) (Env.environ env)\<rparr>\<rparr>;
          env = fold (\<lambda>(containerPath, hostPathStr) env.
                        let hostPath = resolve h (Path hostPathStr);
                            key = (if startswith containerPath ''~/''
                                   then pjoin (ExecContext.home (ctx env)) (drop 2 containerPath)
                                   else Path containerPath)
                        in env\<lparr>ctx := (ctx env)\<lparr>ExecContext.mounts :=
                                  AList.update key hostPath (ExecContext.mounts (ctx env))\<rparr>\<rparr>)
                  (Env.mounts env) env
      in Inr (env, args)))"

text \<open>The command line: the template with its tokens replaced, then, unless the
  last word is the shell, the declared arguments and what is left of the
  caller's.\<close>

definition assemble_command :: "EnvV \<Rightarrow> string list \<Rightarrow> path option \<Rightarrow> string list" where
  "assemble_command env cliArgs fileArg =
     (let commandArgs = command_args (command env) cliArgs fileArg
      in if commandArgs = [] \<or> last commandArgs \<noteq> ''/bin/bash''
         then commandArgs @ Env.args env @ cliArgs else commandArgs)"

text \<open>Joining the user namespace of a shared network when \<open>uidmap\<close> is requested.\<close>

definition join_userns :: "EnvV \<Rightarrow> EnvV" where
  "join_userns env =
     (if cap_get (capabilities env) ''uidmap''
         \<and> startswith (networkNamespace (ctx env)) ''container:''
      then env\<lparr>ctx := ctx_args (ctx env) [''--userns'', networkNamespace (ctx env)]\<rparr>
      else env)"

text \<open>\<open>prepareEnv(env, cliArgs)\<close>, step by step in the order of the source.\<close>

definition prepareEnv :: "host \<Rightarrow> EnvV \<Rightarrow> string list \<Rightarrow> pyerror + prepared" where
  "prepareEnv h env cliArgs =
     seq (applyCapabilities h Capabilities env) (\<lambda>env.
     seq (apply_settings h env) (\<lambda>(env, args).
     seq (file_argument h env cliArgs) (\<lambda>(env, cliArgs, fileArg).
     let commandArgs = assemble_command env cliArgs fileArg in
     seq (validateEnv h env) (\<lambda>(env, ws).
     let env = join_userns env;
         (c, rendered) = getArgs h (ctx env);
         env = env\<lparr>ctx := c\<rparr>
     in Inr \<lparr>env_after = env, cliArgs_after = cliArgs, warnings = ws,
             result = (name env, args @ rendered, commandArgs)\<rparr>))))"

text \<open>The triple a call returns, and the mounts it leaves in the context.\<close>

definition returned :: "pyerror + prepared \<Rightarrow> (string \<times> string list \<times> string list) option" where
  "returned r = (case r of Inl e \<Rightarrow> None | Inr p \<Rightarrow> Some (result p))"

definition mounts_after :: "pyerror + prepared \<Rightarrow> (path, path) dict" where
  "mounts_after r = (case r of Inl e \<Rightarrow> [] | Inr p \<Rightarrow> ExecContext.mounts (ctx (env_after p)))"

section \<open>Resolution of an inheritance chain\<close>

text \<open>
  Modelled from the spec: the code that walks the chain of parents of an
  environment is not among these sources; only the merge of one parent
  (\<open>applyParent\<close>) is. The spec asks that the merge be applied transitively up
  the chain with cycle detection, an environment not being its own ancestor, and
  that a chain \<open>A parent=B parent=A\<close> raise a ConfigurationError. Here \<open>conf\<close>
  maps the names of the configured environments to their objects, \<open>history\<close>
  lists the names already on the chain, and \<open>parentName\<close> is the next parent to
  merge, the empty string ending the chain. A parent that is not configured is
  the \<open>KeyError\<close> of the lookup.
\<close>

function resolveParents ::
  "(string, EnvObj) dict \<Rightarrow> string list \<Rightarrow> store \<Rightarrow> EnvObj \<Rightarrow> string \<Rightarrow> pyerror + store \<times> EnvObj"
  where
  "resolveParents conf history st env parentName =
     (if parentName = [] then Inr (st, env)
      else if parentName \<in> set history then Inl (ConfigurationError parentName)
      else (case map_of conf parentName of
              None \<Rightarrow> Inl (KeyError parentName)
            | Some parentEnv \<Rightarrow>
                (case applyParent st env parentEnv of
                   (st', env') \<Rightarrow>
                     resolveParents conf (history @ [parentName]) st' env' (parent parentEnv))))"
  by pat_completeness auto
termination
proof (relation "measure (\<lambda>(conf, history, st, env, parentName).
                            card (fst ` set conf - set history))", goal_cases)
  case 1
  show ?case by simp
next
  case (2 conf history st env parentName parentEnv st' env')
  from 2 have "parentName \<in> fst ` set conf"
    by (metis domI dom_map_of_conv_image_fst)
  with 2 have "fst ` set conf - set (history @ [parentName]) \<subset> fst ` set conf - set history"
    by auto
  then have "card (fst ` set conf - set (history @ [parentName])) < card (fst ` set conf - set history)"
    by (intro psubset_card_mono) simp_all
  then show ?case by simp
qed

text \<open>Modelled from the spec: the resolution of one environment starts with its own
  name on the chain, so that it may not be its own ancestor.\<close>

definition resolveEnv :: "(string, EnvObj) dict \<Rightarrow> store \<Rightarrow> EnvObj \<Rightarrow> pyerror + store \<times> EnvObj" where
  "resolveEnv conf st env = resolveParents conf [name env] st env (parent env)"

text \<open>The names met when following the parents for at most \<open>n\<close> steps.\<close>

fun ancestry :: "(string, EnvObj) dict \<Rightarrow> nat \<Rightarrow> string \<Rightarrow> string list" where
  "ancestry conf 0 parentName = []"
| "ancestry conf (Suc n) parentName =
     (if parentName = [] then []
      else parentName # (case map_of conf parentName of
                           None \<Rightarrow> []
                         | Some parentEnv \<Rightarrow> ancestry conf n (parent parentEnv)))"

section \<open>Example values\<close>

text \<open>An \<open>Env\<close> with the defaults of the dataclass, given its three dictionaries and
  a configuration file.\<close>

definition Env0 :: "'sd \<Rightarrow> 'sd \<Rightarrow> 'bd \<Rightarrow> ('sd, 'bd) Env" where
  "Env0 e m c =
     \<lparr>name = [], description = Some [], parent = [], desktop = None, image = [], rootfs = [],
      dns = [], imageCustomizations = [], imageTasks = [], packages = [], command = [],
      args = [], environ = e, syscaps = [], mounts = m, capabilities = c, network = [],
      requires = [], overlays = [], home = [], shmsize = [], ports = [], runtime = None,
      ctx = ExecContext0, runDir = None, overlaysDir = None, manageImage = True,
      autoUpdate = False, mountCache = False, configFile = Some (Path ''/etc/podenv.yaml'')\<rparr>"

text \<open>A store with the dictionaries of a parent and of two of its children.\<close>

definition store_ex :: store where
  "store_ex =
     \<lparr>strDicts = (\<lambda>r. [])(1 := [(''A'', ''1'')], 2 := [(''B'', ''2''), (''A'', ''0'')],
                            7 := [(''C'', ''3'')]),
      boolDicts = (\<lambda>r. [])(5 := [(''terminal'', True)], 6 := [(''network'', True)])\<rparr>"

definition child_ex :: EnvObj where
  "child_ex = (Env0 1 3 5)\<lparr>name := ''child'', command := [''vim''], packages := [''vim'']\<rparr>"

definition sibling_ex :: EnvObj where
  "sibling_ex = (Env0 7 8 9)\<lparr>name := ''sibling''\<rparr>"

definition parent_ex :: EnvObj where
  "parent_ex = (Env0 2 4 6)\<lparr>name := ''base'', parent := ''root'', image := ''fedora'',
                  command := [''/bin/bash''], packages := [''bash'']\<rparr>"

text \<open>A cyclic configuration, \<open>A parent=B parent=A\<close>, and a chain that ends.\<close>

definition envA_ex :: EnvObj where
  "envA_ex = (Env0 1 3 5)\<lparr>name := ''A'', parent := ''B''\<rparr>"

definition envB_ex :: EnvObj where
  "envB_ex = (Env0 2 4 6)\<lparr>name := ''B'', parent := ''A''\<rparr>"

definition conf_cycle :: "(string, EnvObj) dict" where
  "conf_cycle = [(''A'', envA_ex), (''B'', envB_ex)]"

definition conf_chain :: "(string, EnvObj) dict" where
  "conf_chain = [(''child'', child_ex\<lparr>parent := ''base''\<rparr>), (''base'', parent_ex\<lparr>parent := []\<rparr>)]"

text \<open>Two contexts with the same mounts and variables, inserted in different orders.\<close>

definition ctx_xa :: ExecContext where
  "ctx_xa = ExecContext0\<lparr>
     ExecContext.mounts := [(Path ''/x'', Path ''/srv/x''), (Path ''/a'', Path ''/srv/a'')],
     ExecContext.environ := [(''TERM'', ''xterm''), (''HOME'', ''/root'')],
     ExecContext.home := Path ''/root''\<rparr>"

definition ctx_ax :: ExecContext where
  "ctx_ax = ExecContext0\<lparr>
     ExecContext.mounts := [(Path ''/a'', Path ''/srv/a''), (Path ''/x'', Path ''/srv/x'')],
     ExecContext.environ := [(''HOME'', ''/root''), (''TERM'', ''xterm'')],
     ExecContext.home := Path ''/root''\<rparr>"

text \<open>A host without environment variables, devices or files, on which paths
  resolve to themselves; sets are visited in the order of first insertion.\<close>

definition host0 :: host where
  "host0 =
     \<lparr>os_environ = [], listdir_dev = [], resolve = (\<lambda>p. p), resolve_strict = (\<lambda>p. Some p),
      is_file = (\<lambda>p. False), read_text = (\<lambda>p. None), path_exists = (\<lambda>p. False),
      os_access_r = (\<lambda>s. True), HAS_SELINUX = False, getfilecon = (\<lambda>s. []),
      set_iter = remdups, str_format = (\<lambda>s d. Some s)\<rparr>"

text \<open>An environment with no capability requested, and one that runs as root.\<close>

definition env_plain :: EnvV where
  "env_plain = (Env0 [] [] [])\<lparr>name := ''plain''\<rparr>"

definition env_root :: EnvV where
  "env_root = (Env0 [] [] [(''root'', True)])\<lparr>name := ''admin''\<rparr>"

text \<open>A handler that leaves the identity set by \<open>rootCap\<close> and the requested
  capabilities as they are.\<close>

definition keeps_identity :: "Capability \<Rightarrow> bool" where
  "keeps_identity capability =
     (\<forall>h active cx env cx' env'.
        capability h active cx env = Inr (cx', env') \<longrightarrow>
          ExecContext.home cx' = ExecContext.home cx \<and> xdgDir cx' = xdgDir cx
          \<and> capabilities env' = capabilities env)"

text \<open>An environment that takes a file argument, and a host on which
  \<open>/etc/localtime\<close> is a symbolic link.\<close>

definition env_file :: EnvV where
  "env_file = (Env0 [] [] [])\<lparr>name := ''clock'', command := [''cat'', ''$1'']\<rparr>"

definition link_target :: "path \<Rightarrow> path option" where
  "link_target p =
     (if p = Path ''/etc/localtime'' then Some (Path ''/usr/share/zoneinfo/UTC'') else Some p)"

definition host_link :: host where
  "host_link = host0\<lparr>resolve_strict := link_target\<rparr>"

text \<open>The declared part of an environment: its fields other than the context and
  the fields that capability handlers and the validator assign.\<close>

definition declared :: "EnvV \<Rightarrow> EnvV" where
  "declared env =
     env\<lparr>ctx := ExecContext0, packages := [], manageImage := True, mountCache := False,
         autoUpdate := False, capabilities := []\<rparr>"

definition keeps_declared :: "Capability \<Rightarrow> bool" where
  "keeps_declared capability =
     (\<forall>h active cx env cx' env'.
        capability h active cx env = Inr (cx', env') \<longrightarrow> declared env' = declared env)"

text \<open>The caller's list after a call.\<close>

definition cli_after :: "pyerror + prepared \<Rightarrow> string list option" where
  "cli_after r = (case r of Inl e \<Rightarrow> None | Inr p \<Rightarrow> Some (cliArgs_after p))"

text \<open>An environment that asks for \<open>setuid\<close>, and a second order of iteration
  over a set: the reverse of the order of first insertion.\<close>

definition env_setuid :: EnvV where
  "env_setuid = (Env0 [] [] [(''setuid'', True)])\<lparr>name := ''su''\<rparr>"

definition rev_iter :: "string list \<Rightarrow> string list" where
  "rev_iter xs = rev (remdups xs)"

definition host_rev :: host where
  "host_rev = host0\<lparr>set_iter := rev_iter\<rparr>"

section \<open>Properties of the inheritance merge\<close>

lemma map_of_dict_update:
  "distinct (map fst other) \<Longrightarrow> map_of (dict_update d other) = map_of d ++ map_of other"
proof (induction other arbitrary: d)
  case Nil
  then show ?case by (simp add: dict_update_def)
next
  case (Cons kv other)
  obtain k v where kv: "kv = (k, v)" by (cases kv)
  from Cons.prems kv have notin: "k \<notin> fst ` set other" and dist: "distinct (map fst other)"
    by auto
  have "map_of (dict_update d (kv # other)) = map_of (dict_update (AList.update k v d) other)"
    by (simp add: dict_update_def kv)
  also have "\<dots> = map_of (AList.update k v d) ++ map_of other"
    using Cons.IH [OF dist] .
  also have "\<dots> = (map_of d)(k \<mapsto> v) ++ map_of other"
    by (simp add: update_conv')
  also have "\<dots> = map_of d ++ map_of (kv # other)"
  proof (rule ext)
    fix x
    from notin have "map_of other k = None"
      by (simp add: map_of_eq_None_iff)
    then show "((map_of d)(k \<mapsto> v) ++ map_of other) x = (map_of d ++ map_of (kv # other)) x"
      by (auto simp: map_add_def kv split: option.splits)
  qed
  finally show ?case .
qed

lemma inherit_dict_snd: "snd (inherit_dict dicts mine theirs) = theirs"
  by (simp add: inherit_dict_def)

lemma inherit_dict_fst:
  "fst (inherit_dict dicts mine theirs) =
     (if dicts mine = [] then dicts else dicts(theirs := dict_update (dicts theirs) (dicts mine)))"
  by (simp add: inherit_dict_def)

lemma inherit_list_append: "inherit_list mine theirs = mine @ theirs"
  by (simp add: inherit_list_def)

text \<open>The child after the merge, attribute by attribute.\<close>

lemma applyParent_snd:
  "snd (applyParent st self parentEnv) =
     self\<lparr>description := inherit_value unset_optstr (description self) (description parentEnv),
          desktop := inherit_value unset_opt (desktop self) (desktop parentEnv),
          image := inherit_value unset_str (Env.image self) (Env.image parentEnv),
          rootfs := inherit_value unset_str (rootfs self) (rootfs parentEnv),
          dns := inherit_value unset_str (dns self) (dns parentEnv),
          imageCustomizations := inherit_list (imageCustomizations self) (imageCustomizations parentEnv),
          imageTasks := inherit_list (imageTasks self) (imageTasks parentEnv),
          packages := inherit_list (packages self) (packages parentEnv),
          command := inherit_command (command self) (command parentEnv),
          args := inherit_list (args self) (args parentEnv),
          Env.environ := Env.environ parentEnv,
          Env.syscaps := inherit_list (Env.syscaps self) (Env.syscaps parentEnv),
          Env.mounts := Env.mounts parentEnv,
          capabilities := capabilities parentEnv,
          network := inherit_value unset_str (network self) (network parentEnv),
          requires := inherit_list (requires self) (requires parentEnv),
          overlays := inherit_list (overlays self) (overlays parentEnv),
          Env.home := inherit_value unset_str (Env.home self) (Env.home parentEnv),
          shmsize := inherit_value unset_str (shmsize self) (shmsize parentEnv),
          ports := inherit_list (ports self) (ports parentEnv),
          runtime := inherit_value unset_opt (runtime self) (runtime parentEnv),
          runDir := inherit_value unset_opt (runDir self) (runDir parentEnv),
          overlaysDir := inherit_value unset_opt (overlaysDir self) (overlaysDir parentEnv),
          configFile := inherit_value unset_opt (configFile self) (configFile parentEnv)\<rparr>"
  by (simp add: applyParent_def Let_def case_prod_beta inherit_dict_snd)

text \<open>The store after the merge.\<close>

lemma applyParent_fst:
  "fst (applyParent st self parentEnv) =
     (let sd1 = fst (inherit_dict (strDicts st) (Env.environ self) (Env.environ parentEnv));
          sd2 = fst (inherit_dict sd1 (Env.mounts self) (Env.mounts parentEnv));
          bd = fst (inherit_dict (boolDicts st) (capabilities self) (capabilities parentEnv))
      in \<lparr>strDicts = sd2, boolDicts = bd\<rparr>)"
  by (simp add: applyParent_def Let_def case_prod_beta inherit_dict_snd)

lemma applyParent_scalars:
  assumes "self' = snd (applyParent st self parentEnv)"
  shows "name self' = name self" and "parent self' = parent self"
    and "description self' =
           (if description self = None \<or> description self = Some [] then description parentEnv
            else description self)"
    and "desktop self' = (if desktop self = None then desktop parentEnv else desktop self)"
    and "Env.image self' = (if Env.image self = [] then Env.image parentEnv else Env.image self)"
    and "rootfs self' = (if rootfs self = [] then rootfs parentEnv else rootfs self)"
    and "dns self' = (if dns self = [] then dns parentEnv else dns self)"
    and "network self' = (if network self = [] then network parentEnv else network self)"
    and "Env.home self' = (if Env.home self = [] then Env.home parentEnv else Env.home self)"
    and "shmsize self' = (if shmsize self = [] then shmsize parentEnv else shmsize self)"
    and "runtime self' = (if runtime self = None then runtime parentEnv else runtime self)"
    and "runDir self' = (if runDir self = None then runDir parentEnv else runDir self)"
    and "overlaysDir self' =
           (if overlaysDir self = None then overlaysDir parentEnv else overlaysDir self)"
    and "configFile self' =
           (if configFile self = None then configFile parentEnv else configFile self)"
  by (simp_all add: assms applyParent_snd inherit_value_def unset_optstr_def unset_opt_def
      unset_str_def)

lemma applyParent_lists:
  assumes "self' = snd (applyParent st self parentEnv)"
  shows "imageCustomizations self' = imageCustomizations self @ imageCustomizations parentEnv"
    and "imageTasks self' = imageTasks self @ imageTasks parentEnv"
    and "packages self' = packages self @ packages parentEnv"
    and "args self' = args self @ args parentEnv"
    and "Env.syscaps self' = Env.syscaps self @ Env.syscaps parentEnv"
    and "requires self' = requires self @ requires parentEnv"
    and "overlays self' = overlays self @ overlays parentEnv"
    and "ports self' = ports self @ ports parentEnv"
  by (simp_all add: assms applyParent_snd inherit_list_append)

lemma applyParent_dicts:
  assumes refs: "Env.environ parentEnv \<noteq> Env.mounts parentEnv"
                "Env.mounts self \<noteq> Env.environ parentEnv"
      and keys: "distinct (map fst (strDicts st (Env.environ self)))"
                "distinct (map fst (strDicts st (Env.mounts self)))"
                "distinct (map fst (boolDicts st (capabilities self)))"
      and s: "self' = snd (applyParent st self parentEnv)"
      and t: "st' = fst (applyParent st self parentEnv)"
  shows "map_of (strDicts st' (Env.environ self')) =
           map_of (strDicts st (Env.environ parentEnv)) ++ map_of (strDicts st (Env.environ self))"
    and "map_of (strDicts st' (Env.mounts self')) =
           map_of (strDicts st (Env.mounts parentEnv)) ++ map_of (strDicts st (Env.mounts self))"
    and "map_of (boolDicts st' (capabilities self')) =
           map_of (boolDicts st (capabilities parentEnv))
             ++ map_of (boolDicts st (capabilities self))"
  using refs keys
  by (simp_all add: s t applyParent_snd applyParent_fst inherit_dict_fst Let_def
      map_of_dict_update)

text \<open>
  Claim C2, as amended. For a child \<open>self\<close> merged with \<open>parentEnv\<close>, the
  dictionaries of the child having unique keys and the dictionaries of distinct
  attributes being distinct objects: every scalar attribute other than \<open>name\<close>
  and \<open>parent\<close> that is unset in the child (\<open>None\<close> or the empty string) is the
  parent's after the merge, and is the child's own otherwise; \<open>name\<close> and
  \<open>parent\<close> stay the child's; every list attribute other than \<open>command\<close> is
  the child's list followed by the parent's; every dictionary attribute is the
  parent's map overridden by the child's entries.
\<close>

theorem applyParent_merge:
  assumes "Env.environ parentEnv \<noteq> Env.mounts parentEnv"
      and "Env.mounts self \<noteq> Env.environ parentEnv"
      and "distinct (map fst (strDicts st (Env.environ self)))"
      and "distinct (map fst (strDicts st (Env.mounts self)))"
      and "distinct (map fst (boolDicts st (capabilities self)))"
      and "applyParent st self parentEnv = (st', self')"
  shows "name self' = name self \<and> parent self' = parent self
    \<and> description self' =
           (if description self = None \<or> description self = Some [] then description parentEnv
            else description self)
    \<and> desktop self' = (if desktop self = None then desktop parentEnv else desktop self)
    \<and> Env.image self' = (if Env.image self = [] then Env.image parentEnv else Env.image self)
    \<and> rootfs self' = (if rootfs self = [] then rootfs parentEnv else rootfs self)
    \<and> dns self' = (if dns self = [] then dns parentEnv else dns self)
    \<and> network self' = (if network self = [] then network parentEnv else network self)
    \<and> Env.home self' = (if Env.home self = [] then Env.home parentEnv else Env.home self)
    \<and> shmsize self' = (if shmsize self = [] then shmsize parentEnv else shmsize self)
    \<and> runtime self' = (if runtime self = None then runtime parentEnv else runtime self)
    \<and> runDir self' = (if runDir self = None then runDir parentEnv else runDir self)
    \<and> overlaysDir self' =
           (if overlaysDir self = None then overlaysDir parentEnv else overlaysDir self)
    \<and> configFile self' =
           (if configFile self = None then configFile parentEnv else configFile self)
    \<and> imageCustomizations self' = imageCustomizations self @ imageCustomizations parentEnv
    \<and> imageTasks self' = imageTasks self @ imageTasks parentEnv
    \<and> packages self' = packages self @ packages parentEnv
    \<and> args self' = args self @ args parentEnv
    \<and> Env.syscaps self' = Env.syscaps self @ Env.syscaps parentEnv
    \<and> requires self' = requires self @ requires parentEnv
    \<and> overlays self' = overlays self @ overlays parentEnv
    \<and> ports self' = ports self @ ports parentEnv
    \<and> map_of (strDicts st' (Env.environ self')) =
           map_of (strDicts st (Env.environ parentEnv)) ++ map_of (strDicts st (Env.environ self))
    \<and> map_of (strDicts st' (Env.mounts self')) =
           map_of (strDicts st (Env.mounts parentEnv)) ++ map_of (strDicts st (Env.mounts self))
    \<and> map_of (boolDicts st' (capabilities self')) =
           map_of (boolDicts st (capabilities parentEnv))
             ++ map_of (boolDicts st (capabilities self))"
proof -
  from assms(6) have s: "self' = snd (applyParent st self parentEnv)"
    and t: "st' = fst (applyParent st self parentEnv)"
    by simp_all
  note sc = applyParent_scalars [OF s]
  note ls = applyParent_lists [OF s]
  note ds = applyParent_dicts [OF assms(1-5) s t]
  show ?thesis
    by (intro conjI) (fact sc ls ds)+
qed

text \<open>The merge of \<open>child_ex\<close> with \<open>parent_ex\<close>: the image is inherited, the
  packages are concatenated, and the child's \<open>A\<close> overrides the parent's.\<close>

theorem applyParent_merge_witness:
  "Env.environ parent_ex \<noteq> Env.mounts parent_ex
   \<and> Env.mounts child_ex \<noteq> Env.environ parent_ex
   \<and> distinct (map fst (strDicts store_ex (Env.environ child_ex)))
   \<and> distinct (map fst (strDicts store_ex (Env.mounts child_ex)))
   \<and> distinct (map fst (boolDicts store_ex (capabilities child_ex)))
   \<and> Env.image (snd (applyParent store_ex child_ex parent_ex)) = ''fedora''
   \<and> packages (snd (applyParent store_ex child_ex parent_ex)) = [''vim'', ''bash'']
   \<and> map_of (strDicts (fst (applyParent store_ex child_ex parent_ex))
               (Env.environ (snd (applyParent store_ex child_ex parent_ex)))) ''A'' = Some ''1''
   \<and> map_of (strDicts (fst (applyParent store_ex child_ex parent_ex))
               (Env.environ (snd (applyParent store_ex child_ex parent_ex)))) ''B'' = Some ''2''"
proof -
  have h1: "Env.environ parent_ex \<noteq> Env.mounts parent_ex"
    and h2: "Env.mounts child_ex \<noteq> Env.environ parent_ex"
    and h3: "distinct (map fst (strDicts store_ex (Env.environ child_ex)))"
    and h4: "distinct (map fst (strDicts store_ex (Env.mounts child_ex)))"
    and h5: "distinct (map fst (boolDicts store_ex (capabilities child_ex)))"
    by (simp_all add: child_ex_def parent_ex_def store_ex_def Env0_def)
  have h6: "applyParent store_ex child_ex parent_ex =
              (fst (applyParent store_ex child_ex parent_ex),
               snd (applyParent store_ex child_ex parent_ex))"
    by simp
  have env: "strDicts store_ex (Env.environ parent_ex) = [(''B'', ''2''), (''A'', ''0'')]"
            "strDicts store_ex (Env.environ child_ex) = [(''A'', ''1'')]"
    and img: "Env.image child_ex = []" "Env.image parent_ex = ''fedora''"
    and pkg: "packages child_ex = [''vim'']" "packages parent_ex = [''bash'']"
    by (simp_all add: child_ex_def parent_ex_def store_ex_def Env0_def)
  from applyParent_merge [OF h1 h2 h3 h4 h5 h6] h1 h2 h3 h4 h5 show ?thesis
    by (simp add: env img pkg)
qed

text \<open>Claim C2 as stated fails at two places. The list attribute \<open>command\<close> of a
  child that has one is not followed by the parent's; and the scalar attribute
  \<open>parent\<close>, unset in the child, does not become the parent's.\<close>

theorem applyParent_merge_counterexample:
  "command (snd (applyParent store_ex child_ex parent_ex))
     \<noteq> command child_ex @ command parent_ex
   \<and> parent child_ex = []
   \<and> parent (snd (applyParent store_ex child_ex parent_ex)) \<noteq> parent parent_ex"
  by (simp add: applyParent_snd inherit_command_def child_ex_def parent_ex_def Env0_def)

text \<open>
  Claim C3, as amended. The \<open>command\<close> of a child is never extended by the
  parent's: a child that has a command keeps exactly it. A child whose command
  is the empty list takes the parent's command.
\<close>

theorem applyParent_command:
  "command (snd (applyParent st self parentEnv)) =
     (if command self = [] then command parentEnv else command self)"
  by (simp add: applyParent_snd inherit_command_def)

theorem applyParent_command_witness:
  "command (snd (applyParent store_ex child_ex parent_ex)) = [''vim'']
   \<and> command (snd (applyParent store_ex (child_ex\<lparr>command := []\<rparr>) parent_ex)) = [''/bin/bash'']"
  using applyParent_command [of store_ex child_ex parent_ex]
    applyParent_command [of store_ex "child_ex\<lparr>command := []\<rparr>" parent_ex]
  by (simp add: child_ex_def parent_ex_def Env0_def)

text \<open>Claim C3 as stated fails for the empty command: the child does not keep it.\<close>

theorem applyParent_empty_command_counterexample:
  "command (child_ex\<lparr>command := []\<rparr>) = []
   \<and> command (snd (applyParent store_ex (child_ex\<lparr>command := []\<rparr>) parent_ex))
       \<noteq> command (child_ex\<lparr>command := []\<rparr>)"
  by (simp add: applyParent_snd inherit_command_def child_ex_def parent_ex_def Env0_def)

text \<open>
  Claim C9. The merge does not leave the parent unchanged: \<open>update\<close> is called
  on the parent's own dictionary. After the merge of \<open>child_ex\<close>, the
  \<open>environ\<close> of \<open>parent_ex\<close> holds the child's \<open>A = 1\<close> in place of its own
  \<open>A = 0\<close>, and \<open>sibling_ex\<close>, merged with the same parent afterwards and
  defining no \<open>A\<close>, receives the first child's value.
\<close>

theorem applyParent_mutates_parent:
  "Env.environ (snapshot store_ex parent_ex) = [(''B'', ''2''), (''A'', ''0'')]
   \<and> Env.environ (snapshot (fst (applyParent store_ex child_ex parent_ex)) parent_ex)
       = [(''B'', ''2''), (''A'', ''1'')]
   \<and> snapshot (fst (applyParent store_ex child_ex parent_ex)) parent_ex
       \<noteq> snapshot store_ex parent_ex
   \<and> map_of (Env.environ
        (snapshot
           (fst (applyParent (fst (applyParent store_ex child_ex parent_ex)) sibling_ex parent_ex))
           (snd (applyParent (fst (applyParent store_ex child_ex parent_ex)) sibling_ex parent_ex))))
        ''A'' = Some ''1''"
proof -
  have a: "Env.environ (snapshot store_ex parent_ex) = [(''B'', ''2''), (''A'', ''0'')]"
    by (simp add: snapshot_def store_ex_def parent_ex_def Env0_def)
  have b: "Env.environ (snapshot (fst (applyParent store_ex child_ex parent_ex)) parent_ex)
             = [(''B'', ''2''), (''A'', ''1'')]"
    by (simp add: snapshot_def applyParent_fst inherit_dict_fst Let_def dict_update_def
        store_ex_def parent_ex_def child_ex_def Env0_def)
  have c: "snapshot (fst (applyParent store_ex child_ex parent_ex)) parent_ex
             \<noteq> snapshot store_ex parent_ex"
  proof
    assume "snapshot (fst (applyParent store_ex child_ex parent_ex)) parent_ex
              = snapshot store_ex parent_ex"
    then have "Env.environ (snapshot (fst (applyParent store_ex child_ex parent_ex)) parent_ex)
                 = Env.environ (snapshot store_ex parent_ex)"
      by simp
    with a b show False by simp
  qed
  have d: "map_of (Env.environ
        (snapshot
           (fst (applyParent (fst (applyParent store_ex child_ex parent_ex)) sibling_ex parent_ex))
           (snd (applyParent (fst (applyParent store_ex child_ex parent_ex)) sibling_ex parent_ex))))
        ''A'' = Some ''1''"
    by (simp add: snapshot_def applyParent_fst applyParent_snd inherit_dict_fst Let_def
        dict_update_def store_ex_def parent_ex_def child_ex_def sibling_ex_def Env0_def)
  from a b c d show ?thesis by (intro conjI)
qed

section \<open>Properties of the chain resolution\<close>

text \<open>If a name repeats among the names already on the chain and those met by
  following the parents, the resolution stops with a ConfigurationError.\<close>

lemma resolveParents_cycle:
  assumes "distinct history" and "\<not> distinct (history @ ancestry conf n parentName)"
  shows "\<exists>a. resolveParents conf history st env parentName = Inl (ConfigurationError a)"
  using assms
proof (induction n arbitrary: history st env parentName)
  case 0
  then show ?case by simp
next
  case (Suc n)
  show ?case
  proof (cases "parentName = []")
    case True
    with Suc.prems show ?thesis by simp
  next
    case nonempty: False
    show ?thesis
    proof (cases "parentName \<in> set history")
      case True
      with nonempty show ?thesis by simp
    next
      case fresh: False
      show ?thesis
      proof (cases "map_of conf parentName")
        case None
        with Suc.prems nonempty fresh show ?thesis by simp
      next
        case (Some parentEnv)
        obtain st' env' where ap: "applyParent st env parentEnv = (st', env')"
          by (cases "applyParent st env parentEnv")
        from Suc.prems(1) fresh have d: "distinct (history @ [parentName])" by simp
        from Suc.prems(2) nonempty Some
        have nd: "\<not> distinct ((history @ [parentName]) @ ancestry conf n (parent parentEnv))"
          by simp
        from Suc.IH [OF d nd] obtain a where
          "resolveParents conf (history @ [parentName]) st' env' (parent parentEnv)
             = Inl (ConfigurationError a)"
          by blast
        with nonempty fresh Some ap show ?thesis by simp
      qed
    qed
  qed
qed

text \<open>
  Claim C8. \<open>resolveParents\<close> is a total function, with the number of
  configured names not yet on the chain as its measure, so the resolution of any
  chain returns. If the chain of an environment contains a cycle, that is, a
  name repeats among the environment's own name and the names of its ancestors,
  the resolution returns a ConfigurationError.
\<close>

theorem resolveEnv_cycle:
  assumes "\<not> distinct (name env # ancestry conf n (parent env))"
  shows "\<exists>a. resolveEnv conf st env = Inl (ConfigurationError a)"
proof -
  have "distinct [name env]" by simp
  moreover from assms have "\<not> distinct ([name env] @ ancestry conf n (parent env))" by simp
  ultimately show ?thesis
    unfolding resolveEnv_def by (rule resolveParents_cycle)
qed

text \<open>The chain \<open>A parent=B parent=A\<close>.\<close>

theorem resolveEnv_cycle_witness:
  "\<not> distinct (name envA_ex # ancestry conf_cycle 2 (parent envA_ex))
   \<and> (\<exists>a. resolveEnv conf_cycle store_ex envA_ex = Inl (ConfigurationError a))"
proof -
  have h: "\<not> distinct (name envA_ex # ancestry conf_cycle 2 (parent envA_ex))"
    by (simp add: numeral_2_eq_2 envA_ex_def envB_ex_def conf_cycle_def Env0_def)
  from resolveEnv_cycle [OF h] h show ?thesis by (intro conjI)
qed

text \<open>The error names the environment that is its own ancestor; a chain without
  a cycle resolves to the merge with its parent.\<close>

lemma resolveEnv_cycle_value:
  "resolveEnv conf_cycle store_ex envA_ex = Inl (ConfigurationError ''A'')"
  by (simp add: resolveEnv_def envA_ex_def envB_ex_def conf_cycle_def Env0_def applyParent_snd
      split: prod.split)

lemma resolveEnv_chain_value:
  "resolveEnv conf_chain store_ex (child_ex\<lparr>parent := ''base''\<rparr>)
     = Inr (applyParent store_ex (child_ex\<lparr>parent := ''base''\<rparr>) (parent_ex\<lparr>parent := []\<rparr>))"
  by (simp add: resolveEnv_def conf_chain_def child_ex_def parent_ex_def Env0_def
      split: prod.split)

section \<open>Properties of the argument vector\<close>

text \<open>The arguments of \<open>getArgs\<close>, segment by segment, and the context it leaves.\<close>

lemma getArgs_snd:
  "snd (getArgs h self) =
     (if seLinuxLabel self \<noteq> [] then [''--security-opt'', ''label='' @ seLinuxLabel self] else [])
     @ (if seccomp self \<noteq> [] then [''--security-opt'', ''seccomp='' @ seccomp self] else [])
     @ (if networkNamespace self \<noteq> [] then [''--network'', networkNamespace self] else [])
     @ [''--workdir'', pstr (if cwd self = Path0 then ExecContext.home self else cwd self)]
     @ mount_flags h self @ syscap_flags h self @ environ_flags self @ execArgs self"
  by (simp add: getArgs_def Let_def mount_flags_def syscap_flags_def environ_flags_def)

lemma getArgs_fst:
  "fst (getArgs h self) =
     self\<lparr>cwd := (if cwd self = Path0 then ExecContext.home self else cwd self)\<rparr>"
  by (simp add: getArgs_def Let_def)

lemma sort_mset_cong: "mset xs = mset ys \<Longrightarrow> sort xs = sort ys"
  by (metis sorted_list_of_multiset_mset)

lemma sorted_map_fst:
  fixes es :: "('a::linorder \<times> 'b::linorder) list"
  shows "sorted es \<Longrightarrow> sorted (map fst es)"
  unfolding sorted_map
  by (erule sorted_wrt_mono_rel [rotated]) (auto simp: less_eq_prod_def)

text \<open>With unique keys, the loop over the sorted keys visits the sorted items.\<close>

lemma mount_flags_items:
  assumes "distinct (map fst (ExecContext.mounts self))"
  shows "\<exists>ms. mset ms = mset (ExecContext.mounts self) \<and> map fst ms = sort (map fst (ExecContext.mounts self))
           \<and> mount_flags h self =
               concat (map (\<lambda>(mount, hostPath).
                              [''-v'', pstr (resolve h hostPath) @ '':'' @ pstr mount]) ms)"
proof -
  let ?m = "ExecContext.mounts self"
  let ?item = "\<lambda>k. (k, the (map_of ?m k))"
  let ?ms = "map ?item (sort (map fst ?m))"
  have item: "?item (fst kv) = kv" if "kv \<in> set ?m" for kv
  proof (cases kv)
    case (Pair k v)
    with that have "(k, v) \<in> set ?m" by simp
    with assms have "map_of ?m k = Some v" by (rule map_of_is_SomeI)
    with Pair show ?thesis by simp
  qed
  have "mset ?ms = image_mset ?item (mset (sort (map fst ?m)))"
    by (rule mset_map)
  also have "\<dots> = image_mset ?item (mset (map fst ?m))"
    by (simp only: mset_sort)
  also have "\<dots> = image_mset ?item (image_mset fst (mset ?m))"
    by (simp only: mset_map)
  also have "\<dots> = image_mset (\<lambda>kv. ?item (fst kv)) (mset ?m)"
    by (simp only: multiset.map_comp comp_def)
  also have "\<dots> = image_mset (\<lambda>kv. kv) (mset ?m)"
    by (rule image_mset_cong, rule item) simp
  finally have m: "mset ?ms = mset ?m" by simp
  have k: "map fst ?ms = sort (map fst ?m)"
    by (simp add: comp_def)
  have step: "(case map_of ?m k of
                  None \<Rightarrow> []
                | Some hostPath \<Rightarrow> [''-v'', pstr (resolve h hostPath) @ '':'' @ pstr k])
               = (case ?item k of
                    (mount, hostPath) \<Rightarrow> [''-v'', pstr (resolve h hostPath) @ '':'' @ pstr mount])"
    if "k \<in> set (sort (map fst ?m))" for k
  proof -
    from that have "k \<in> fst ` set ?m" by simp
    then obtain v where "(k, v) \<in> set ?m" by auto
    with assms have "map_of ?m k = Some v" by (rule map_of_is_SomeI)
    then show ?thesis by simp
  qed
  have "mount_flags h self =
          concat (map (\<lambda>(mount, hostPath).
                         [''-v'', pstr (resolve h hostPath) @ '':'' @ pstr mount]) ?ms)"
    unfolding mount_flags_def map_map comp_def
    by (rule arg_cong [where f = concat], rule map_cong [OF refl], rule step)
  with m k show ?thesis by (intro exI [of _ ?ms] conjI)
qed

lemma mount_flags_cong:
  assumes "distinct (map fst (ExecContext.mounts self))"
      and "mset (ExecContext.mounts other) = mset (ExecContext.mounts self)"
  shows "mount_flags h other = mount_flags h self"
proof -
  from assms(2)
  have km: "mset (map fst (ExecContext.mounts other)) = mset (map fst (ExecContext.mounts self))"
    by simp
  then have keys: "sort (map fst (ExecContext.mounts other)) = sort (map fst (ExecContext.mounts self))"
    by (rule sort_mset_cong)
  from assms(1) mset_eq_imp_distinct_iff [OF km]
  have d: "distinct (map fst (ExecContext.mounts other))"
    by simp
  from assms(2) have "set (ExecContext.mounts other) = set (ExecContext.mounts self)"
    by (rule mset_eq_setD)
  with map_of_inject_set [OF d assms(1)]
  have "map_of (ExecContext.mounts other) = map_of (ExecContext.mounts self)"
    by simp
  with keys show ?thesis by (simp add: mount_flags_def)
qed

lemma environ_flags_cong:
  assumes "mset (ExecContext.environ other) = mset (ExecContext.environ self)"
  shows "environ_flags other = environ_flags self"
  using sort_mset_cong [OF assms] by (simp add: environ_flags_def)

text \<open>
  Claim C6. In the arguments of \<open>getArgs\<close>, the \<open>-v hostPath:containerPath\<close>
  flags are those of the mounts \<open>ms\<close> in ascending order of the container
  path, and the \<open>-e NAME=VALUE\<close> flags are those of the variables \<open>es\<close> in
  ascending order of the name; a context \<open>other\<close> that holds the same mounts
  and variables in another insertion order renders the same two sequences. The
  keys of the mounts dictionary are unique. Paths are ordered as pathlib orders
  them, part by part.
\<close>

theorem getArgs_sorted:
  assumes "distinct (map fst (ExecContext.mounts self))"
      and "mset (ExecContext.mounts other) = mset (ExecContext.mounts self)"
      and "mset (ExecContext.environ other) = mset (ExecContext.environ self)"
  shows "\<exists>ms es.
           mset ms = mset (ExecContext.mounts self) \<and> sorted (map fst ms)
         \<and> mset es = mset (ExecContext.environ self) \<and> sorted (map fst es)
         \<and> (\<exists>pre. snd (getArgs h self) =
               pre
               @ concat (map (\<lambda>(mount, hostPath).
                                [''-v'', pstr (resolve h hostPath) @ '':'' @ pstr mount]) ms)
               @ syscap_flags h self
               @ concat (map (\<lambda>(e, v). [''-e'', e @ ''='' @ v]) es)
               @ execArgs self)
         \<and> (\<exists>pre. snd (getArgs h other) =
               pre
               @ concat (map (\<lambda>(mount, hostPath).
                                [''-v'', pstr (resolve h hostPath) @ '':'' @ pstr mount]) ms)
               @ syscap_flags h other
               @ concat (map (\<lambda>(e, v). [''-e'', e @ ''='' @ v]) es)
               @ execArgs other)"
proof -
  from mount_flags_items [OF assms(1), of h] obtain ms where
    ms: "mset ms = mset (ExecContext.mounts self)"
    and keys: "map fst ms = sort (map fst (ExecContext.mounts self))"
    and flags: "mount_flags h self =
                  concat (map (\<lambda>(mount, hostPath).
                                 [''-v'', pstr (resolve h hostPath) @ '':'' @ pstr mount]) ms)"
    by blast
  let ?es = "sort (ExecContext.environ self)"
  have es: "mset ?es = mset (ExecContext.environ self)" by simp
  have ses: "sorted (map fst ?es)" by (rule sorted_map_fst) simp
  from keys have sms: "sorted (map fst ms)" by simp
  have eflags: "environ_flags self = concat (map (\<lambda>(e, v). [''-e'', e @ ''='' @ v]) ?es)"
    by (simp add: environ_flags_def)
  define pre :: "ExecContext \<Rightarrow> string list" where "pre c =
     (if seLinuxLabel c \<noteq> [] then [''--security-opt'', ''label='' @ seLinuxLabel c] else [])
     @ (if seccomp c \<noteq> [] then [''--security-opt'', ''seccomp='' @ seccomp c] else [])
     @ (if networkNamespace c \<noteq> [] then [''--network'', networkNamespace c] else [])
     @ [''--workdir'', pstr (if cwd c = Path0 then ExecContext.home c else cwd c)]" for c
  have seg: "snd (getArgs h c) =
                 pre c @ mount_flags h c @ syscap_flags h c @ environ_flags c @ execArgs c" for c
    by (simp add: getArgs_snd pre_def)
  have a: "snd (getArgs h self) =
               pre self
               @ concat (map (\<lambda>(mount, hostPath).
                                [''-v'', pstr (resolve h hostPath) @ '':'' @ pstr mount]) ms)
               @ syscap_flags h self
               @ concat (map (\<lambda>(e, v). [''-e'', e @ ''='' @ v]) ?es)
               @ execArgs self"
    by (simp only: seg flags eflags)
  have b: "snd (getArgs h other) =
               pre other
               @ concat (map (\<lambda>(mount, hostPath).
                                [''-v'', pstr (resolve h hostPath) @ '':'' @ pstr mount]) ms)
               @ syscap_flags h other
               @ concat (map (\<lambda>(e, v). [''-e'', e @ ''='' @ v]) ?es)
               @ execArgs other"
    by (simp only: seg mount_flags_cong [OF assms(1,2)] environ_flags_cong [OF assms(3)]
        flags eflags)
  show ?thesis
    apply (rule exI [of _ ms])
    apply (rule exI [of _ ?es])
    apply (intro conjI)
         apply (rule ms)
        apply (rule sms)
       apply (rule es)
      apply (rule ses)
     apply (rule exI [of _ "pre self"], rule a)
    apply (rule exI [of _ "pre other"], rule b)
    done
qed


text \<open>The mounts \<open>/x\<close> and \<open>/a\<close> and the variables \<open>TERM\<close> and \<open>HOME\<close>, inserted
  in the two orders.\<close>

theorem getArgs_sorted_witness:
  "distinct (map fst (ExecContext.mounts ctx_xa))
   \<and> mset (ExecContext.mounts ctx_ax) = mset (ExecContext.mounts ctx_xa)
   \<and> mset (ExecContext.environ ctx_ax) = mset (ExecContext.environ ctx_xa)
   \<and> (\<exists>ms es.
           mset ms = mset (ExecContext.mounts ctx_xa) \<and> sorted (map fst ms)
         \<and> mset es = mset (ExecContext.environ ctx_xa) \<and> sorted (map fst es)
         \<and> (\<exists>pre. snd (getArgs host0 ctx_xa) =
               pre
               @ concat (map (\<lambda>(mount, hostPath).
                                [''-v'', pstr (resolve host0 hostPath) @ '':'' @ pstr mount]) ms)
               @ syscap_flags host0 ctx_xa
               @ concat (map (\<lambda>(e, v). [''-e'', e @ ''='' @ v]) es)
               @ execArgs ctx_xa)
         \<and> (\<exists>pre. snd (getArgs host0 ctx_ax) =
               pre
               @ concat (map (\<lambda>(mount, hostPath).
                                [''-v'', pstr (resolve host0 hostPath) @ '':'' @ pstr mount]) ms)
               @ syscap_flags host0 ctx_ax
               @ concat (map (\<lambda>(e, v). [''-e'', e @ ''='' @ v]) es)
               @ execArgs ctx_ax))"
proof -
  have h1: "distinct (map fst (ExecContext.mounts ctx_xa))"
    by (simp add: ctx_xa_def ExecContext0_def Path_def splitroot_def)
  have h2: "mset (ExecContext.mounts ctx_ax) = mset (ExecContext.mounts ctx_xa)"
    by (simp add: ctx_xa_def ctx_ax_def ExecContext0_def)
  have h3: "mset (ExecContext.environ ctx_ax) = mset (ExecContext.environ ctx_xa)"
    by (simp add: ctx_xa_def ctx_ax_def ExecContext0_def)
  from h1 h2 h3 getArgs_sorted [OF h1 h2 h3, of host0] show ?thesis
    by (intro conjI)
qed

text \<open>Both contexts render \<open>/a\<close> before \<open>/x\<close> and \<open>HOME\<close> before \<open>TERM\<close>.\<close>

lemma getArgs_sorted_value:
  "snd (getArgs host0 ctx_xa) =
     [''--workdir'', ''/root'', ''-v'', ''/srv/a:/a'', ''-v'', ''/srv/x:/x'',
      ''-e'', ''HOME=/root'', ''-e'', ''TERM=xterm'']"
  "snd (getArgs host0 ctx_ax) = snd (getArgs host0 ctx_xa)"
  by (simp_all add: getArgs_snd mount_flags_def syscap_flags_def environ_flags_def ctx_xa_def
      ctx_ax_def ExecContext0_def host0_def Path_def Path0_def splitroot_def pstr_def has_root_def
      less_eq_path_def)

section \<open>Properties of the capability pipeline\<close>

lemma Capabilities_names:
  "map fst Capabilities =
     [''manage-image'', ''root'', ''privileged'', ''terminal'', ''ipc'', ''x11'', ''pulseaudio'',
      ''git'', ''editor'', ''ssh'', ''gpg'', ''webcam'', ''dri'', ''kvm'', ''tun'', ''seccomp'',
      ''selinux'', ''setuid'', ''ptrace'', ''network'', ''mount-cwd'', ''mount-run'',
      ''mount-cache'', ''auto-update'', ''uidmap'']"
  by code_simp

lemma camelCaseToHyphen_values:
  "camelCaseToHyphen ''manageImage'' = ''manage-image''"
  "camelCaseToHyphen ''root'' = ''root''"
  "camelCaseToHyphen ''privileged'' = ''privileged''"
  "camelCaseToHyphen ''terminal'' = ''terminal''"
  "camelCaseToHyphen ''ipc'' = ''ipc''"
  "camelCaseToHyphen ''x11'' = ''x11''"
  "camelCaseToHyphen ''pulseaudio'' = ''pulseaudio''"
  "camelCaseToHyphen ''git'' = ''git''"
  "camelCaseToHyphen ''editor'' = ''editor''"
  "camelCaseToHyphen ''ssh'' = ''ssh''"
  "camelCaseToHyphen ''gpg'' = ''gpg''"
  "camelCaseToHyphen ''webcam'' = ''webcam''"
  "camelCaseToHyphen ''dri'' = ''dri''"
  "camelCaseToHyphen ''kvm'' = ''kvm''"
  "camelCaseToHyphen ''tun'' = ''tun''"
  "camelCaseToHyphen ''seccomp'' = ''seccomp''"
  "camelCaseToHyphen ''selinux'' = ''selinux''"
  "camelCaseToHyphen ''setuid'' = ''setuid''"
  "camelCaseToHyphen ''ptrace'' = ''ptrace''"
  "camelCaseToHyphen ''network'' = ''network''"
  "camelCaseToHyphen ''mountCwd'' = ''mount-cwd''"
  "camelCaseToHyphen ''mountRun'' = ''mount-run''"
  "camelCaseToHyphen ''mountCache'' = ''mount-cache''"
  "camelCaseToHyphen ''autoUpdate'' = ''auto-update''"
  "camelCaseToHyphen ''uidmap'' = ''uidmap''"
  by code_simp+

text \<open>The catalogue with the names computed.\<close>

lemma Capabilities_eq:
  "Capabilities =
     [(''manage-image'', ''manage the image with buildah'', manageImageCap),
      (''root'', ''run as root'', rootCap),
      (''privileged'', ''run as privileged container'', privilegedCap),
      (''terminal'', ''interactive mode'', terminalCap),
      (''ipc'', ''share host ipc'', ipcCap),
      (''x11'', ''share x11 socket'', x11Cap),
      (''pulseaudio'', ''share pulseaudio socket'', pulseaudioCap),
      (''git'', ''share .gitconfig and excludesfile'', gitCap),
      (''editor'', ''setup editor env'', editorCap),
      (''ssh'', ''share ssh agent and keys'', sshCap),
      (''gpg'', ''share gpg agent'', gpgCap),
      (''webcam'', ''share webcam device'', webcamCap),
      (''dri'', ''share graphic device'', driCap),
      (''kvm'', ''share kvm device'', kvmCap),
      (''tun'', ''share tun device'', tunCap),
      (''seccomp'', ''enable seccomp'', seccompCap),
      (''selinux'', ''enable SELinux'', selinuxCap),
      (''setuid'', ''enable setuid'', setuidCap),
      (''ptrace'', ''enable ptrace'', ptraceCap),
      (''network'', ''enable network'', networkCap),
      (''mount-cwd'', ''mount cwd to /data'', mountCwdCap),
      (''mount-run'', ''mount home and tmp to host tmpfs'', mountRunCap),
      (''mount-cache'', ''mount image build cache'', mountCacheCap),
      (''auto-update'', ''keep environment updated'', autoUpdateCap),
      (''uidmap'', ''map host uid'', uidmapCap)]"
  by (simp add: Capabilities_def capability_funcs_def camelCaseToHyphen_values)

lemma Capabilities_first_two:
  "take 2 Capabilities =
     [(''manage-image'', ''manage the image with buildah'', manageImageCap),
      (''root'', ''run as root'', rootCap)]"
  by (simp add: Capabilities_eq)

lemma for_each_append:
  "for_each body (xs @ ys) s = seq (for_each body xs s) (for_each body ys)"
  by (induction xs arbitrary: s) (auto simp: seq_def split: sum.splits)

lemma fold_ctx_args_identity:
  "ExecContext.home (fold (\<lambda>d c. ctx_args c (g d)) ds c) = ExecContext.home c
   \<and> xdgDir (fold (\<lambda>d c. ctx_args c (g d)) ds c) = xdgDir c"
  by (induction ds arbitrary: c) (simp_all add: ctx_args_def)

lemma gitCap_line_identity:
  "gitCap_line h raw cx = Inr cx' \<Longrightarrow>
     ExecContext.home cx' = ExecContext.home cx \<and> xdgDir cx' = xdgDir cx"
  by (auto simp: gitCap_line_def Let_def split: if_splits list.splits)

lemma gitCap_lines_identity:
  "for_each (gitCap_line h) ls cx = Inr cx' \<Longrightarrow>
     ExecContext.home cx' = ExecContext.home cx \<and> xdgDir cx' = xdgDir cx"
proof (induction ls arbitrary: cx)
  case Nil
  then show ?case by simp
next
  case (Cons l ls)
  from Cons.prems obtain cx1 where l: "gitCap_line h l cx = Inr cx1"
    and r: "for_each (gitCap_line h) ls cx1 = Inr cx'"
    by (auto split: sum.splits)
  from gitCap_line_identity [OF l] Cons.IH [OF r] show ?case by simp
qed

lemma keeps_identity_simple:
  "keeps_identity privilegedCap" "keeps_identity terminalCap" "keeps_identity ipcCap"
  "keeps_identity driCap" "keeps_identity kvmCap" "keeps_identity tunCap"
  "keeps_identity seccompCap" "keeps_identity selinuxCap" "keeps_identity setuidCap"
  "keeps_identity ptraceCap" "keeps_identity networkCap" "keeps_identity mountCwdCap"
  "keeps_identity mountCacheCap" "keeps_identity autoUpdateCap" "keeps_identity uidmapCap"
  "keeps_identity editorCap"
  by (auto simp: keeps_identity_def privilegedCap_def terminalCap_def ipcCap_def driCap_def
      kvmCap_def tunCap_def seccompCap_def selinuxCap_def setuidCap_def ptraceCap_def
      networkCap_def mountCwdCap_def mountCacheCap_def autoUpdateCap_def uidmapCap_def
      editorCap_def ctx_args_def Let_def split: if_splits)

lemma keeps_identity_host:
  "keeps_identity x11Cap" "keeps_identity pulseaudioCap" "keeps_identity sshCap"
  "keeps_identity gpgCap" "keeps_identity mountRunCap"
  by (auto simp: keeps_identity_def x11Cap_def pulseaudioCap_def sshCap_def gpgCap_def
      mountRunCap_def Let_def split: if_splits sum.splits option.splits)

lemma keeps_identity_webcam: "keeps_identity webcamCap"
  by (auto simp: keeps_identity_def webcamCap_def fold_ctx_args_identity split: if_splits)

lemma keeps_identity_git: "keeps_identity gitCap"
  unfolding keeps_identity_def
proof (intro allI impI)
  fix h active cx env cx' env'
  assume a: "gitCap h active cx env = Inr (cx', env')"
  show "ExecContext.home cx' = ExecContext.home cx \<and> xdgDir cx' = xdgDir cx
          \<and> capabilities env' = capabilities env"
  proof (cases "active \<and> is_file h (resolve h (Path ''~/.gitconfig''))")
    case False
    with a show ?thesis by (auto simp: gitCap_def Let_def split: if_splits)
  next
    case True
    with a obtain content where
      r: "for_each (gitCap_line h) (str_split (char_of (10 :: nat)) content)
            (cx\<lparr>ExecContext.mounts :=
                  AList.update (pjoin (ExecContext.home cx) ''.gitconfig'')
                    (resolve h (Path ''~/.gitconfig'')) (ExecContext.mounts cx)\<rparr>) = Inr cx'"
      and e: "env' = env"
      by (auto simp: gitCap_def Let_def split: if_splits option.splits sum.splits)
    from gitCap_lines_identity [OF r] e show ?thesis by simp
  qed
qed

lemma keeps_identity_rest:
  "\<forall>(name, doc, capability) \<in> set (drop 2 Capabilities). keeps_identity capability"
  by (simp add: Capabilities_eq keeps_identity_simple keeps_identity_host
      keeps_identity_webcam keeps_identity_git)

lemma applyCapabilities_identity:
  assumes "\<forall>(name, doc, capability) \<in> set caps. keeps_identity capability"
      and "applyCapabilities h caps env = Inr env'"
  shows "ExecContext.home (ctx env') = ExecContext.home (ctx env)
         \<and> xdgDir (ctx env') = xdgDir (ctx env) \<and> capabilities env' = capabilities env"
  using assms
proof (induction caps arbitrary: env)
  case Nil
  then show ?case by (simp add: applyCapabilities_def)
next
  case (Cons c caps)
  obtain name doc capability where c: "c = (name, doc, capability)"
    by (cases c)
  from Cons.prems(1) c have k: "keeps_identity capability"
    and ks: "\<forall>(name, doc, capability) \<in> set caps. keeps_identity capability"
    by simp_all
  from Cons.prems(2) c obtain cx1 env1 where
    s: "capability h (cap_get (capabilities env) name) (ctx env) env = Inr (cx1, env1)"
    and r: "applyCapabilities h caps (env1\<lparr>ctx := cx1\<rparr>) = Inr env'"
    by (auto simp: applyCapabilities_def call_cap_def split: sum.splits)
  from k s have "ExecContext.home cx1 = ExecContext.home (ctx env) \<and> xdgDir cx1 = xdgDir (ctx env)
                 \<and> capabilities env1 = capabilities env"
    unfolding keeps_identity_def by blast
  with Cons.IH [OF ks r] show ?case by simp
qed

lemma applyCapabilities_append:
  "applyCapabilities h (xs @ ys) env = seq (applyCapabilities h xs env) (applyCapabilities h ys)"
  by (simp add: applyCapabilities_def [abs_def] for_each_append)

text \<open>The environment after the first two handlers.\<close>

lemma applyCapabilities_first_two:
  "\<exists>env2. applyCapabilities h (take 2 Capabilities) env = Inr env2
     \<and> ExecContext.home (ctx env2) =
         (if cap_get (capabilities env) ''root'' then Path ''/root'' else Path ''/home/user'')
     \<and> xdgDir (ctx env2) =
         (if cap_get (capabilities env) ''root'' then Path ''/run/user/0''
          else Path ''/run/user/1000'')
     \<and> capabilities env2 = capabilities env"
  by (simp add: Capabilities_first_two applyCapabilities_def call_cap_def manageImageCap_def
      rootCap_def Let_def ctx_args_def)

text \<open>
  Claim C4, as amended. The identity-setting handler \<open>rootCap\<close> is the second
  entry of the catalogue; the first is \<open>manageImageCap\<close>, which returns the
  context it is given. Every handler from the third on runs on a context whose
  \<open>home\<close> and \<open>xdgDir\<close> are the ones set by \<open>rootCap\<close>: whenever the first
  \<open>n \<ge> 2\<close> handlers have run without raising, the two fields hold the values
  for the requested identity.
\<close>

theorem identity_set_after_second_handler:
  assumes "2 \<le> n" and "applyCapabilities h (take n Capabilities) env = Inr env'"
  shows "map fst (take 2 Capabilities) = [''manage-image'', ''root'']
         \<and> manageImageCap h active cx env = Inr (cx, env\<lparr>manageImage := active\<rparr>)
         \<and> ExecContext.home (ctx env') =
             (if cap_get (capabilities env) ''root'' then Path ''/root'' else Path ''/home/user'')
         \<and> xdgDir (ctx env') =
             (if cap_get (capabilities env) ''root'' then Path ''/run/user/0''
              else Path ''/run/user/1000'')"
proof -
  from assms(1) obtain k where k: "n = 2 + k"
    by (auto simp: le_iff_add)
  have t: "take n Capabilities = take 2 Capabilities @ take (n - 2) (drop 2 Capabilities)"
    unfolding k by (simp only: take_add add_diff_cancel_left')
  obtain env2 where
    two: "applyCapabilities h (take 2 Capabilities) env = Inr env2"
    and home2: "ExecContext.home (ctx env2) =
         (if cap_get (capabilities env) ''root'' then Path ''/root'' else Path ''/home/user'')"
    and xdg2: "xdgDir (ctx env2) =
         (if cap_get (capabilities env) ''root'' then Path ''/run/user/0''
          else Path ''/run/user/1000'')"
    using applyCapabilities_first_two [of h env] by blast
  from assms(2) two have rest:
    "applyCapabilities h (take (n - 2) (drop 2 Capabilities)) env2 = Inr env'"
    by (simp add: t applyCapabilities_append seq_def)
  have "\<forall>(name, doc, capability) \<in> set (take (n - 2) (drop 2 Capabilities)).
          keeps_identity capability"
    using keeps_identity_rest by (meson in_set_takeD)
  from applyCapabilities_identity [OF this rest] home2 xdg2
  have "ExecContext.home (ctx env') =
             (if cap_get (capabilities env) ''root'' then Path ''/root'' else Path ''/home/user'')"
    and "xdgDir (ctx env') =
             (if cap_get (capabilities env) ''root'' then Path ''/run/user/0''
              else Path ''/run/user/1000'')"
    by simp_all
  moreover have "map fst (take 2 Capabilities) = [''manage-image'', ''root'']"
    by (simp add: Capabilities_first_two)
  moreover have "manageImageCap h active cx env = Inr (cx, env\<lparr>manageImage := active\<rparr>)"
    by (simp add: manageImageCap_def)
  ultimately show ?thesis by (intro conjI)
qed


text \<open>The handlers and the values the examples are evaluated with.\<close>

lemmas capability_defs =
  manageImageCap_def rootCap_def privilegedCap_def terminalCap_def ipcCap_def x11Cap_def
  pulseaudioCap_def gitCap_def editorCap_def sshCap_def gpgCap_def webcamCap_def driCap_def
  kvmCap_def tunCap_def seccompCap_def selinuxCap_def setuidCap_def ptraceCap_def networkCap_def
  mountCwdCap_def mountRunCap_def mountCacheCap_def autoUpdateCap_def uidmapCap_def
  applyCapabilities_def call_cap_def cap_get_def ctx_args_def os_environ_get_def seq_def

lemmas path_defs =
  Path_def Path0_def splitroot_def pjoin_def has_root_def pstr_def pname_def less_eq_path_def

text \<open>The whole pipeline on an environment that asks for root.\<close>

theorem identity_set_after_second_handler_witness:
  "(2 :: nat) \<le> 25
   \<and> (\<exists>env'. applyCapabilities host0 (take 25 Capabilities) env_root = Inr env'
         \<and> ExecContext.home (ctx env') = Path ''/root''
         \<and> xdgDir (ctx env') = Path ''/run/user/0'')"
proof -
  obtain env' where r: "applyCapabilities host0 (take 25 Capabilities) env_root = Inr env'"
    by (simp add: Capabilities_eq capability_defs env_root_def Env0_def host0_def Let_def)
  have c: "cap_get (capabilities env_root) ''root''"
    by (simp add: cap_get_def env_root_def Env0_def)
  from identity_set_after_second_handler [OF _ r, of False ExecContext0] c r show ?thesis
    by simp
qed

text \<open>Claim C4 as stated fails: the first entry of the catalogue is not the
  identity-setting handler, and the handler that runs first is given a context
  whose \<open>home\<close> and \<open>xdgDir\<close> are still \<open>Path()\<close>.\<close>

theorem identity_not_first_counterexample:
  "map fst (take 2 Capabilities) = [''manage-image'', ''root'']
   \<and> applyCapabilities host0 (take 0 Capabilities) env_plain = Inr env_plain
   \<and> ExecContext.home (ctx env_plain) = Path0 \<and> xdgDir (ctx env_plain) = Path0"
  by (simp add: Capabilities_first_two applyCapabilities_def env_plain_def Env0_def
      ExecContext0_def)

section \<open>Properties of prepareEnv\<close>

text \<open>The steps of \<open>prepareEnv\<close> and what a successful call returns.\<close>

lemma prepareEnv_cases:
  "prepareEnv h env cliArgs =
     (case applyCapabilities h Capabilities env of
        Inl e \<Rightarrow> Inl e
      | Inr env1 \<Rightarrow>
     (case apply_settings h env1 of
        Inl e \<Rightarrow> Inl e
      | Inr (env2, xargs) \<Rightarrow>
     (case file_argument h env2 cliArgs of
        Inl e \<Rightarrow> Inl e
      | Inr (env3, cli', fileArg) \<Rightarrow>
     (case validateEnv h env3 of
        Inl e \<Rightarrow> Inl e
      | Inr (env4, ws) \<Rightarrow>
          Inr \<lparr>env_after = (join_userns env4)\<lparr>ctx := fst (getArgs h (ctx (join_userns env4)))\<rparr>,
               cliArgs_after = cli', warnings = ws,
               result = (name (join_userns env4),
                         xargs @ snd (getArgs h (ctx (join_userns env4))),
                         assemble_command env3 cli' fileArg)\<rparr>))))"
  by (simp add: prepareEnv_def seq_def Let_def case_prod_beta split: sum.splits)

lemma prepareEnv_InrE:
  assumes "prepareEnv h env cliArgs = Inr p"
  obtains env1 env2 xargs env3 cli' fileArg env4 ws where
    "applyCapabilities h Capabilities env = Inr env1"
    "apply_settings h env1 = Inr (env2, xargs)"
    "file_argument h env2 cliArgs = Inr (env3, cli', fileArg)"
    "validateEnv h env3 = Inr (env4, ws)"
    "p = \<lparr>env_after = (join_userns env4)\<lparr>ctx := fst (getArgs h (ctx (join_userns env4)))\<rparr>,
          cliArgs_after = cli', warnings = ws,
          result = (name (join_userns env4),
                    xargs @ snd (getArgs h (ctx (join_userns env4))),
                    assemble_command env3 cli' fileArg)\<rparr>"
  using assms unfolding prepareEnv_cases
  by (auto split: sum.splits prod.splits)

subsection \<open>The declared part is not assigned\<close>

lemma declared_ctx [simp]: "declared (env\<lparr>ctx := c\<rparr>) = declared env"
  by (simp add: declared_def)

lemma keeps_declared_all:
  "keeps_declared manageImageCap" "keeps_declared rootCap"
  "keeps_declared privilegedCap" "keeps_declared terminalCap" "keeps_declared ipcCap"
  "keeps_declared driCap" "keeps_declared kvmCap" "keeps_declared tunCap"
  "keeps_declared seccompCap" "keeps_declared selinuxCap" "keeps_declared setuidCap"
  "keeps_declared ptraceCap" "keeps_declared networkCap" "keeps_declared mountCwdCap"
  "keeps_declared mountCacheCap" "keeps_declared autoUpdateCap" "keeps_declared uidmapCap"
  "keeps_declared editorCap" "keeps_declared webcamCap"
  "keeps_declared x11Cap" "keeps_declared pulseaudioCap" "keeps_declared sshCap"
  "keeps_declared gpgCap" "keeps_declared mountRunCap" "keeps_declared gitCap"
  by (auto simp: keeps_declared_def declared_def manageImageCap_def rootCap_def privilegedCap_def
      terminalCap_def ipcCap_def driCap_def kvmCap_def tunCap_def seccompCap_def selinuxCap_def
      setuidCap_def ptraceCap_def networkCap_def mountCwdCap_def mountCacheCap_def
      autoUpdateCap_def uidmapCap_def editorCap_def webcamCap_def x11Cap_def pulseaudioCap_def
      sshCap_def gpgCap_def mountRunCap_def gitCap_def Let_def
      split: if_splits sum.splits option.splits)

lemma keeps_declared_Capabilities:
  "\<forall>(name, doc, capability) \<in> set Capabilities. keeps_declared capability"
  by (simp add: Capabilities_eq keeps_declared_all)

lemma call_cap_declared:
  "keeps_declared capability \<Longrightarrow> call_cap capability h active env = Inr env' \<Longrightarrow>
   declared env' = declared env"
  by (auto simp: call_cap_def keeps_declared_def split: sum.splits)

lemma applyCapabilities_declared:
  assumes "\<forall>(name, doc, capability) \<in> set caps. keeps_declared capability"
      and "applyCapabilities h caps env = Inr env'"
  shows "declared env' = declared env"
  using assms
proof (induction caps arbitrary: env)
  case Nil
  then show ?case by (simp add: applyCapabilities_def)
next
  case (Cons c caps)
  obtain name doc capability where c: "c = (name, doc, capability)"
    by (cases c)
  from Cons.prems(1) c have k: "keeps_declared capability"
    and ks: "\<forall>(name, doc, capability) \<in> set caps. keeps_declared capability"
    by simp_all
  from Cons.prems(2) c obtain env1 where
    s: "call_cap capability h (cap_get (capabilities env) name) env = Inr env1"
    and r: "applyCapabilities h caps env1 = Inr env'"
    by (auto simp: applyCapabilities_def split: sum.splits)
  from call_cap_declared [OF k s] Cons.IH [OF ks r] show ?case by simp
qed

lemma fold_mounts_declared:
  "declared (fold (\<lambda>(containerPath, hostPathStr) env.
                     env\<lparr>ctx := (ctx env)\<lparr>ExecContext.mounts := f containerPath hostPathStr env\<rparr>\<rparr>)
               ms env) = declared env"
  by (induction ms arbitrary: env) (auto simp: declared_def)

lemma apply_settings_declared:
  assumes "apply_settings h env = Inr (env', xargs)"
  shows "declared env' = declared env"
  using assms
  by (auto simp: apply_settings_def Let_def seq_def fold_mounts_declared
      split: sum.splits if_splits)

lemma file_argument_declared:
  "file_argument h env cliArgs = Inr (env', cli', fileArg) \<Longrightarrow> declared env' = declared env"
  by (auto simp: file_argument_def split: if_splits option.splits)

lemma for_each_preserves:
  assumes "\<And>x s s'. body x s = Inr s' \<Longrightarrow> P s \<Longrightarrow> P s'"
      and "P s" and "for_each body xs s = Inr s'"
  shows "P s'"
  using assms(2,3)
proof (induction xs arbitrary: s)
  case Nil
  then show ?case by simp
next
  case (Cons x xs)
  from Cons.prems(2) obtain s1 where b: "body x s = Inr s1" and r: "for_each body xs s1 = Inr s'"
    by (auto split: sum.splits)
  from assms(1) [OF b Cons.prems(1)] have "P s1" .
  from Cons.IH [OF this r] show ?case .
qed

text \<open>Each rule of the validator, and so the validator, keeps a property of the
  environment that the three handlers it calls, an assignment to \<open>capabilities\<close>
  and an \<open>append\<close> to the system capabilities keep.\<close>

lemma validateEnv_preserves:
  assumes sel: "\<And>env env'. call_cap selinuxCap h False env = Inr env' \<Longrightarrow> P env \<Longrightarrow> P env'"
      and uid: "\<And>env env'. call_cap uidmapCap h True env = Inr env' \<Longrightarrow> P env \<Longrightarrow> P env'"
      and run: "\<And>env env'. call_cap mountRunCap h True env = Inr env' \<Longrightarrow> P env \<Longrightarrow> P env'"
      and img: "\<And>env env'. call_cap manageImageCap h True env = Inr env' \<Longrightarrow> P env \<Longrightarrow> P env'"
      and caps: "\<And>env. P env \<Longrightarrow>
                   P (env\<lparr>capabilities := AList.update ''selinux'' False (capabilities env)\<rparr>)"
      and sys: "\<And>env. P env \<Longrightarrow>
                   P (env\<lparr>ctx := (ctx env)\<lparr>ExecContext.syscaps :=
                                      ExecContext.syscaps (ctx env) @ [''NET_ADMIN'']\<rparr>\<rparr>)"
      and start: "P env" and res: "validateEnv h env = Inr (env', ws)"
  shows "P env'"
proof -
  let ?Q = "\<lambda>s :: vstate. P (fst s)"
  have r1: "?Q s'" if "check_selinux_sockets h s = Inr s'" "?Q s" for s s'
  proof (cases "cap_get (capabilities (fst s)) ''selinux''")
    case False
    with that show ?thesis by (simp add: check_selinux_sockets_def)
  next
    case True
    with that(1) have "for_each (\<lambda>cap (env, ws).
            if cap_get (capabilities env) cap then
              seq (call_cap selinuxCap h False env) (\<lambda>env.
                Inr (env\<lparr>capabilities := AList.update ''selinux'' False (capabilities env)\<rparr>,
                     ws @ [SELinuxDisabledForCap cap]))
            else Inr (env, ws))
          [''x11'', ''tun'', ''pulseaudio''] s = Inr s'"
      by (simp add: check_selinux_sockets_def)
    moreover have "?Q s2"
      if b: "(\<lambda>cap (env, ws).
            if cap_get (capabilities env) cap then
              seq (call_cap selinuxCap h False env) (\<lambda>env.
                Inr (env\<lparr>capabilities := AList.update ''selinux'' False (capabilities env)\<rparr>,
                     ws @ [SELinuxDisabledForCap cap]))
            else Inr (env, ws)) cap s1 = Inr s2" and q: "?Q s1" for cap s1 s2
    proof (cases "cap_get (capabilities (fst s1)) cap")
      case False
      with b q show ?thesis by (auto split: prod.splits)
    next
      case True
      with b obtain e1 where e1: "call_cap selinuxCap h False (fst s1) = Inr e1"
        and s2: "fst s2 = e1\<lparr>capabilities := AList.update ''selinux'' False (capabilities e1)\<rparr>"
        by (auto simp: seq_def split: prod.splits sum.splits)
      from sel [OF e1 q] have "P e1" .
      from caps [OF this] s2 show ?thesis by simp
    qed
    ultimately show ?thesis
      using that(2) by (rule for_each_preserves [rotated 2])
  qed
  have r2: "?Q s'" if "check_uid h s = Inr s'" "?Q s" for s s'
    using that
    by (auto simp: check_uid_def seq_def split: prod.splits if_splits option.splits sum.splits
        intro: uid)
  have r3: "?Q s'" if "check_syscaps h s = Inr s'" "?Q s" for s s'
    using that
    by (auto simp: check_syscaps_def split: prod.splits if_splits intro: sys)
  have r4: "?Q s'" if "check_mount_labels h s = Inr s'" "?Q s" for s s'
  proof (cases "cap_get (capabilities (fst s)) ''selinux'' \<and> HAS_SELINUX h")
    case False
    with that show ?thesis by (auto simp: check_mount_labels_def)
  next
    case True
    with that(1) have "for_each (\<lambda>hostPath (env, ws).
            (let hostPath = resolve h hostPath in
             if path_exists h hostPath then
               seq (label_differs h hostPath) (\<lambda>differs.
                 if differs then
                   seq (call_cap selinuxCap h False env) (\<lambda>env.
                     Inr (env, ws @ [SELinuxDisabledForLabel hostPath]))
                 else Inr (env, ws))
             else Inr (env, ws)))
          (map snd (ExecContext.mounts (ctx (fst s)))) s = Inr s'"
      by (simp add: check_mount_labels_def)
    then show ?thesis
      by (rule for_each_preserves [rotated 2])
         (auto simp: seq_def Let_def that(2) split: if_splits sum.splits intro: sel)
  qed
  have r5: "?Q s'" if "check_mount_perms h s = Inr s'" "?Q s" for s s'
    using that(1) unfolding check_mount_perms_def
    by (rule for_each_preserves [rotated 2])
       (auto simp: Let_def that(2) split: if_splits)
  have r6: "?Q s'" if "check_home_mount h s = Inr s'" "?Q s" for s s'
    using that
    by (auto simp: check_home_mount_def seq_def split: prod.splits if_splits sum.splits
        intro: run)
  have r7: "?Q s'" if "check_image_management h s = Inr s'" "?Q s" for s s'
    using that
    by (auto simp: check_image_management_def seq_def split: prod.splits if_splits sum.splits
        intro: img)
  from res obtain s1 s2 s3 s4 s5 s6 where
    c: "check_selinux_sockets h (env, []) = Inr s1" "check_uid h s1 = Inr s2"
       "check_syscaps h s2 = Inr s3" "check_mount_labels h s3 = Inr s4"
       "check_mount_perms h s4 = Inr s5" "check_home_mount h s5 = Inr s6"
       "check_image_management h s6 = Inr (env', ws)"
    by (auto simp: validateEnv_def seq_def split: sum.splits)
  from start have "?Q (env, [])" by simp
  from r1 [OF c(1) this] have "?Q s1" .
  from r2 [OF c(2) this] have "?Q s2" .
  from r3 [OF c(3) this] have "?Q s3" .
  from r4 [OF c(4) this] have "?Q s4" .
  from r5 [OF c(5) this] have "?Q s5" .
  from r6 [OF c(6) this] have "?Q s6" .
  from r7 [OF c(7) this] show ?thesis by simp
qed

lemma validateEnv_declared:
  assumes "validateEnv h env = Inr (env', ws)"
  shows "declared env' = declared env"
proof -
  have "(\<lambda>e. declared e = declared env) env'"
  proof (rule validateEnv_preserves [OF _ _ _ _ _ _ _ assms])
    show "declared env = declared env" ..
  qed (auto simp: call_cap_def selinuxCap_def uidmapCap_def mountRunCap_def manageImageCap_def
        declared_def Let_def split: if_splits option.splits)
  then show ?thesis .
qed

lemma join_userns_declared: "declared (join_userns env) = declared env"
  by (simp add: join_userns_def)

lemma prepareEnv_declared:
  assumes "prepareEnv h env cliArgs = Inr p"
  shows "declared (env_after p) = declared env"
proof -
  from assms obtain env1 env2 xargs env3 cli' fileArg env4 ws where
    s: "applyCapabilities h Capabilities env = Inr env1"
       "apply_settings h env1 = Inr (env2, xargs)"
       "file_argument h env2 cliArgs = Inr (env3, cli', fileArg)"
       "validateEnv h env3 = Inr (env4, ws)"
    and p: "env_after p = (join_userns env4)\<lparr>ctx := fst (getArgs h (ctx (join_userns env4)))\<rparr>"
    by (rule prepareEnv_InrE) simp
  from p have "declared (env_after p) = declared env4"
    by (simp add: join_userns_declared)
  also have "\<dots> = declared env3" by (rule validateEnv_declared [OF s(4)])
  also have "\<dots> = declared env2" by (rule file_argument_declared [OF s(3)])
  also have "\<dots> = declared env1" by (rule apply_settings_declared [OF s(2)])
  also have "\<dots> = declared env"
    by (rule applyCapabilities_declared [OF keeps_declared_Capabilities s(1)])
  finally show ?thesis .
qed

lemma declared_fields:
  assumes "declared env' = declared env"
  shows "env'\<lparr>ctx := ctx env, packages := packages env, manageImage := manageImage env,
              mountCache := mountCache env, autoUpdate := autoUpdate env,
              capabilities := capabilities env\<rparr> = env"
proof -
  have "env'\<lparr>ctx := ctx env, packages := packages env, manageImage := manageImage env,
              mountCache := mountCache env, autoUpdate := autoUpdate env,
              capabilities := capabilities env\<rparr>
        = (declared env')\<lparr>ctx := ctx env, packages := packages env, manageImage := manageImage env,
              mountCache := mountCache env, autoUpdate := autoUpdate env,
              capabilities := capabilities env\<rparr>"
    by (simp add: declared_def)
  also have "\<dots> = (declared env)\<lparr>ctx := ctx env, packages := packages env,
              manageImage := manageImage env, mountCache := mountCache env,
              autoUpdate := autoUpdate env, capabilities := capabilities env\<rparr>"
    by (simp only: assms)
  also have "\<dots> = env"
    by (simp add: declared_def)
  finally show ?thesis .
qed

lemma declared_command: "declared env' = declared env \<Longrightarrow> command env' = command env"
  by (drule arg_cong [where f = command]) (simp add: declared_def)

lemma file_argument_cliArgs:
  assumes "file_argument h env cliArgs = Inr (env', cli', fileArg)"
  shows "cli' = (if ''$1'' \<in> set (command env) then [] else cliArgs)"
proof (cases "''$1'' \<in> set (command env)")
  case False
  with assms show ?thesis by (simp add: file_argument_def)
next
  case True
  with assms have len: "length cliArgs \<le> 1"
    by (auto simp: file_argument_def split: if_splits)
  show ?thesis
  proof (cases cliArgs)
    case Nil
    with assms True show ?thesis by (simp add: file_argument_def)
  next
    case (Cons a as)
    with len have "cliArgs = [a]" by simp
    with assms True show ?thesis
      by (auto simp: file_argument_def split: option.splits)
  qed
qed

text \<open>
  Claim C10, as amended. Producing the triple is not free of effects, and the
  effects are these. \<open>getArgs\<close> assigns \<open>cwd\<close>, to \<open>home\<close>, when \<open>cwd\<close> is
  \<open>Path()\<close>, and leaves every other field of the context. A call of
  \<open>prepareEnv\<close> that returns leaves the caller's list empty when the command
  template contains \<open>$1\<close> (the file argument is popped) and as it was
  otherwise; and of the environment it assigns only \<open>ctx\<close>, \<open>packages\<close>,
  \<open>manageImage\<close>, \<open>mountCache\<close>, \<open>autoUpdate\<close> and \<open>capabilities\<close>: every
  other field, the residual ones among them (name, dns, shmsize, home, ports,
  syscaps, environ, mounts, command, args), is unchanged.
\<close>

theorem prepareEnv_effects:
  assumes "prepareEnv h env cliArgs = Inr p"
  shows "fst (getArgs h c) = c\<lparr>cwd := (if cwd c = Path0 then ExecContext.home c else cwd c)\<rparr>
       \<and> cliArgs_after p = (if ''$1'' \<in> set (command env) then [] else cliArgs)
       \<and> (env_after p)\<lparr>ctx := ctx env, packages := packages env,
             manageImage := manageImage env, mountCache := mountCache env,
             autoUpdate := autoUpdate env, capabilities := capabilities env\<rparr> = env"
proof -
  from assms obtain env1 env2 xargs env3 cli' fileArg where
    s: "applyCapabilities h Capabilities env = Inr env1"
       "apply_settings h env1 = Inr (env2, xargs)"
       "file_argument h env2 cliArgs = Inr (env3, cli', fileArg)"
    and p: "cliArgs_after p = cli'"
    by (rule prepareEnv_InrE) simp
  have "declared env2 = declared env"
    using apply_settings_declared [OF s(2)]
      applyCapabilities_declared [OF keeps_declared_Capabilities s(1)] by simp
  then have "command env2 = command env" by (rule declared_command)
  with file_argument_cliArgs [OF s(3)] p
  have a: "cliArgs_after p = (if ''$1'' \<in> set (command env) then [] else cliArgs)"
    by simp
  from a getArgs_fst [of h c] declared_fields [OF prepareEnv_declared [OF assms]]
  show ?thesis by (intro conjI)
qed


text \<open>The call \<open>prepareEnv(env_file, ["/etc/hostname"])\<close> on \<open>host0\<close>.\<close>

lemma prepareEnv_file_value:
  "returned (prepareEnv host0 env_file [''/etc/hostname'']) =
     Some (''clock'',
       [''--hostname'', ''clock'', ''--security-opt'', ''label=disable'',
        ''--security-opt'', ''seccomp=unconfined'', ''--network'', ''none'',
        ''--workdir'', ''/home/user'', ''-v'', ''/etc/hostname:/tmp/hostname'',
        ''-e'', ''HOME=/home/user'', ''-e'', ''XDG_RUNTIME_DIR=/run/user/1000'',
        ''--user'', ''1000''],
       [''cat'', ''/tmp/hostname''])"
  "cli_after (prepareEnv host0 env_file [''/etc/hostname'']) = Some []"
  "mounts_after (prepareEnv host0 env_file [''/etc/hostname''])
     = [(Path ''/tmp/hostname'', Path ''/etc/hostname'')]"
  by code_simp+

theorem prepareEnv_effects_witness:
  "\<exists>p. prepareEnv host0 env_file [''/etc/hostname''] = Inr p
     \<and> cliArgs_after p = []
     \<and> (env_after p)\<lparr>ctx := ctx env_file, packages := packages env_file,
           manageImage := manageImage env_file, mountCache := mountCache env_file,
           autoUpdate := autoUpdate env_file, capabilities := capabilities env_file\<rparr> = env_file"
proof -
  obtain p where r: "prepareEnv host0 env_file [''/etc/hostname''] = Inr p"
    using prepareEnv_file_value(2) by (auto simp: cli_after_def split: sum.splits)
  have c: "''$1'' \<in> set (command env_file)"
    by (simp add: env_file_def)
  from prepareEnv_effects [OF r, of ExecContext0] c r show ?thesis
    by simp
qed

text \<open>Claim C10 as stated fails: \<open>getArgs\<close> assigns the \<open>cwd\<close> of the context,
  and \<open>prepareEnv\<close> empties the caller's list and adds a mount to the context.\<close>

theorem prepareEnv_not_pure_counterexample:
  "cwd ctx_xa = Path0 \<and> cwd (fst (getArgs host0 ctx_xa)) = Path ''/root''
   \<and> Path ''/root'' \<noteq> Path0
   \<and> cli_after (prepareEnv host0 env_file [''/etc/hostname'']) = Some []
   \<and> ExecContext.mounts (ctx env_file) = []
   \<and> mounts_after (prepareEnv host0 env_file [''/etc/hostname''])
       = [(Path ''/tmp/hostname'', Path ''/etc/hostname'')]"
proof -
  have "cwd ctx_xa = Path0" "cwd (fst (getArgs host0 ctx_xa)) = Path ''/root''"
    "Path ''/root'' \<noteq> Path0" "ExecContext.mounts (ctx env_file) = []"
    by (simp_all add: getArgs_fst ctx_xa_def env_file_def Env0_def ExecContext0_def path_defs)
  with prepareEnv_file_value(2,3) show ?thesis by (intro conjI)
qed

subsection \<open>The file argument\<close>

lemma command_args_no_cli:
  "command_args template [] (Some r) =
     map (\<lambda>tok. if tok = ''$1'' then ''/tmp/'' @ pname r else tok) template"
proof -
  have "fold (\<lambda>tok commandArgs.
             if tok = ''$@'' \<and> ([] :: string list) \<noteq> [] then commandArgs @ []
             else (case (tok = ''$1'', Some r) of
                     (True, Some f) \<Rightarrow> commandArgs @ [''/tmp/'' @ pname f]
                   | _ \<Rightarrow> commandArgs @ [tok])) template acc
        = acc @ map (\<lambda>tok. if tok = ''$1'' then ''/tmp/'' @ pname r else tok) template" for acc
    by (induction template arbitrary: acc) auto
  from this [of "[]"] show ?thesis
    by (simp add: command_args_def)
qed

lemma file_argument_multiple:
  "''$1'' \<in> set (command env) \<Longrightarrow> 1 < length cliArgs \<Longrightarrow>
   file_argument h env cliArgs = Inl (RuntimeError ''Multiple file input'')"
  by (simp add: file_argument_def)

lemma file_argument_single:
  "''$1'' \<in> set (command env) \<Longrightarrow>
   file_argument h env [f] =
     (case resolve_strict h (Path f) of
        None \<Rightarrow> Inl FileNotFoundError
      | Some r \<Rightarrow>
          Inr (env\<lparr>ctx := (ctx env)\<lparr>ExecContext.mounts :=
                       AList.update (pjoin (Path ''/tmp'') (pname r)) r
                         (ExecContext.mounts (ctx env))\<rparr>\<rparr>, [], Some r))"
  by (simp add: file_argument_def split: option.splits)

text \<open>The validator keeps the mounts that are there.\<close>

lemma validateEnv_keeps_mount:
  assumes "validateEnv h env = Inr (env', ws)"
      and "map_of (ExecContext.mounts (ctx env)) k = Some v"
  shows "map_of (ExecContext.mounts (ctx env')) k = Some v"
proof -
  have "(\<lambda>e. map_of (ExecContext.mounts (ctx e)) k = Some v) env'"
  proof (rule validateEnv_preserves [OF _ _ _ _ _ _ _ assms(1)])
    show "map_of (ExecContext.mounts (ctx env)) k = Some v" by (rule assms(2))
  next
    fix e e'
    assume "call_cap mountRunCap h True e = Inr e'"
      and "map_of (ExecContext.mounts (ctx e)) k = Some v"
    then show "map_of (ExecContext.mounts (ctx e')) k = Some v"
      by (auto simp: call_cap_def mountRunCap_def Let_def update_conv'
          split: if_splits option.splits)
  qed (auto simp: call_cap_def selinuxCap_def uidmapCap_def manageImageCap_def)
  then show ?thesis .
qed

lemma prepareEnv_multiple:
  assumes "''$1'' \<in> set (command env)" and "1 < length cliArgs"
  shows "\<exists>e. prepareEnv h env cliArgs = Inl e"
proof (cases "prepareEnv h env cliArgs")
  case (Inl e)
  then show ?thesis by blast
next
  case (Inr p)
  then obtain env1 env2 xargs env3 cli' fileArg where
    s: "applyCapabilities h Capabilities env = Inr env1"
       "apply_settings h env1 = Inr (env2, xargs)"
       "file_argument h env2 cliArgs = Inr (env3, cli', fileArg)"
    by (rule prepareEnv_InrE)
  have "declared env2 = declared env"
    using apply_settings_declared [OF s(2)]
      applyCapabilities_declared [OF keeps_declared_Capabilities s(1)] by simp
  then have "command env2 = command env" by (rule declared_command)
  with assms have "file_argument h env2 cliArgs = Inl (RuntimeError ''Multiple file input'')"
    by (simp add: file_argument_multiple)
  with s(3) show ?thesis by simp
qed

lemma prepareEnv_single:
  assumes "''$1'' \<in> set (command env)" and "prepareEnv h env [f] = Inr p"
  shows "\<exists>r. resolve_strict h (Path f) = Some r
           \<and> map_of (mounts_after (Inr p)) (pjoin (Path ''/tmp'') (pname r)) = Some r
           \<and> snd (snd (result p)) =
               (let ca = map (\<lambda>tok. if tok = ''$1'' then ''/tmp/'' @ pname r else tok) (command env)
                in if last ca \<noteq> ''/bin/bash'' then ca @ Env.args env else ca)"
proof -
  from assms(2) obtain env1 env2 xargs env3 cli' fileArg env4 ws where
    s: "applyCapabilities h Capabilities env = Inr env1"
       "apply_settings h env1 = Inr (env2, xargs)"
       "file_argument h env2 [f] = Inr (env3, cli', fileArg)"
       "validateEnv h env3 = Inr (env4, ws)"
    and p: "p = \<lparr>env_after = (join_userns env4)\<lparr>ctx := fst (getArgs h (ctx (join_userns env4)))\<rparr>,
          cliArgs_after = cli', warnings = ws,
          result = (name (join_userns env4),
                    xargs @ snd (getArgs h (ctx (join_userns env4))),
                    assemble_command env3 cli' fileArg)\<rparr>"
    by (rule prepareEnv_InrE)
  have d2: "declared env2 = declared env"
    using apply_settings_declared [OF s(2)]
      applyCapabilities_declared [OF keeps_declared_Capabilities s(1)] by simp
  then have c2: "command env2 = command env" by (rule declared_command)
  with assms(1) have in2: "''$1'' \<in> set (command env2)" by simp
  from s(3) file_argument_single [OF in2, of h f] obtain r where
    r: "resolve_strict h (Path f) = Some r"
    and e3: "env3 = env2\<lparr>ctx := (ctx env2)\<lparr>ExecContext.mounts :=
                       AList.update (pjoin (Path ''/tmp'') (pname r)) r
                         (ExecContext.mounts (ctx env2))\<rparr>\<rparr>"
    and cli: "cli' = []" and fa: "fileArg = Some r"
    by (auto split: option.splits)
  from e3 have "map_of (ExecContext.mounts (ctx env3)) (pjoin (Path ''/tmp'') (pname r)) = Some r"
    by (simp add: update_conv')
  from validateEnv_keeps_mount [OF s(4) this]
  have "map_of (ExecContext.mounts (ctx env4)) (pjoin (Path ''/tmp'') (pname r)) = Some r" .
  then have m: "map_of (mounts_after (Inr p)) (pjoin (Path ''/tmp'') (pname r)) = Some r"
    by (simp add: p mounts_after_def getArgs_fst join_userns_def ctx_args_def)
  from e3 d2 have d3: "declared env3 = declared env" by simp
  then have c3: "command env3 = command env" by (rule declared_command)
  from d3 have a3: "Env.args env3 = Env.args env"
    by (drule_tac arg_cong [where f = Env.args]) (simp add: declared_def)
  from assms(1) have ne: "map (\<lambda>tok. if tok = ''$1'' then ''/tmp/'' @ pname r else tok) (command env) \<noteq> []"
    by auto
  have "snd (snd (result p)) =
               (let ca = map (\<lambda>tok. if tok = ''$1'' then ''/tmp/'' @ pname r else tok) (command env)
                in if last ca \<noteq> ''/bin/bash'' then ca @ Env.args env else ca)"
    using ne by (simp add: p assemble_command_def cli fa command_args_no_cli c3 a3 Let_def)
  with r m show ?thesis by blast
qed

text \<open>
  Claim C7, as amended. When the command template contains the token \<open>$1\<close>:
  with more than one CLI argument the file-argument step raises the
  \<open>RuntimeError\<close> \<open>Multiple file input\<close> and \<open>prepareEnv\<close> returns an error,
  so no argument vector; with exactly one CLI argument \<open>f\<close>, a call that
  returns has resolved \<open>f\<close> to a path \<open>r\<close> (\<open>expanduser().resolve(strict=True)\<close>),
  the context holds the mount of \<open>r\<close> at \<open>/tmp/<name of r>\<close>, every \<open>$1\<close> of
  the template is replaced by \<open>/tmp/<name of r>\<close> in commandArgs, and the
  file-argument step changes the mounts by that one assignment. The name is
  that of the resolved path, not of \<open>f\<close> as given.
\<close>

theorem file_argument_contract:
  assumes "''$1'' \<in> set (command env)"
  shows "(1 < length cliArgs \<longrightarrow>
            file_argument h env cliArgs = Inl (RuntimeError ''Multiple file input'')
            \<and> (\<exists>e. prepareEnv h env cliArgs = Inl e))
       \<and> (\<forall>p. prepareEnv h env [f] = Inr p \<longrightarrow>
            (\<exists>r. resolve_strict h (Path f) = Some r
               \<and> map_of (mounts_after (Inr p)) (pjoin (Path ''/tmp'') (pname r)) = Some r
               \<and> snd (snd (result p)) =
                   (let ca = map (\<lambda>tok. if tok = ''$1'' then ''/tmp/'' @ pname r else tok)
                               (command env)
                    in if last ca \<noteq> ''/bin/bash'' then ca @ Env.args env else ca)))
       \<and> (\<forall>r. resolve_strict h (Path f) = Some r \<longrightarrow>
            file_argument h env [f] =
              Inr (env\<lparr>ctx := (ctx env)\<lparr>ExecContext.mounts :=
                           AList.update (pjoin (Path ''/tmp'') (pname r)) r
                             (ExecContext.mounts (ctx env))\<rparr>\<rparr>, [], Some r))"
proof (intro conjI impI allI)
  assume "1 < length cliArgs"
  with assms show "file_argument h env cliArgs = Inl (RuntimeError ''Multiple file input'')"
    by (rule file_argument_multiple)
next
  assume "1 < length cliArgs"
  with assms show "\<exists>e. prepareEnv h env cliArgs = Inl e"
    by (rule prepareEnv_multiple)
next
  fix p
  assume "prepareEnv h env [f] = Inr p"
  with assms show "\<exists>r. resolve_strict h (Path f) = Some r
               \<and> map_of (mounts_after (Inr p)) (pjoin (Path ''/tmp'') (pname r)) = Some r
               \<and> snd (snd (result p)) =
                   (let ca = map (\<lambda>tok. if tok = ''$1'' then ''/tmp/'' @ pname r else tok)
                               (command env)
                    in if last ca \<noteq> ''/bin/bash'' then ca @ Env.args env else ca)"
    by (rule prepareEnv_single)
next
  fix r
  assume "resolve_strict h (Path f) = Some r"
  with file_argument_single [OF assms, of h f]
  show "file_argument h env [f] =
              Inr (env\<lparr>ctx := (ctx env)\<lparr>ExecContext.mounts :=
                           AList.update (pjoin (Path ''/tmp'') (pname r)) r
                             (ExecContext.mounts (ctx env))\<rparr>\<rparr>, [], Some r)"
    by simp
qed


text \<open>The template \<open>cat $1\<close> with two arguments and with one.\<close>

theorem file_argument_contract_witness:
  "''$1'' \<in> set (command env_file)
   \<and> file_argument host0 env_file [''/a'', ''/b''] = Inl (RuntimeError ''Multiple file input'')
   \<and> (\<exists>e. prepareEnv host0 env_file [''/a'', ''/b''] = Inl e)
   \<and> (\<exists>p. prepareEnv host0 env_file [''/etc/hostname''] = Inr p
         \<and> map_of (mounts_after (Inr p)) (Path ''/tmp/hostname'') = Some (Path ''/etc/hostname'')
         \<and> snd (snd (result p)) = [''cat'', ''/tmp/hostname''])"
proof -
  have c: "''$1'' \<in> set (command env_file)"
    by (simp add: env_file_def)
  note t = file_argument_contract [OF c, of "[''/a'', ''/b'']" host0 "''/etc/hostname''"]
  from t have a: "file_argument host0 env_file [''/a'', ''/b'']
                    = Inl (RuntimeError ''Multiple file input'')"
    and b: "\<exists>e. prepareEnv host0 env_file [''/a'', ''/b''] = Inl e"
    by simp_all
  obtain p where r: "prepareEnv host0 env_file [''/etc/hostname''] = Inr p"
    using prepareEnv_file_value(2) by (auto simp: cli_after_def split: sum.splits)
  from t r obtain q where
    q: "resolve_strict host0 (Path ''/etc/hostname'') = Some q"
    and m: "map_of (mounts_after (Inr p)) (pjoin (Path ''/tmp'') (pname q)) = Some q"
    and cmd: "snd (snd (result p)) =
                (let ca = map (\<lambda>tok. if tok = ''$1'' then ''/tmp/'' @ pname q else tok)
                            (command env_file)
                 in if last ca \<noteq> ''/bin/bash'' then ca @ Env.args env_file else ca)"
    by blast
  from q have qv: "q = Path ''/etc/hostname''"
    by (simp add: host0_def)
  have k: "pjoin (Path ''/tmp'') ''hostname'' = Path ''/tmp/hostname''"
    "pname (Path ''/etc/hostname'') = ''hostname''"
    by code_simp+
  from m cmd have "map_of (mounts_after (Inr p)) (Path ''/tmp/hostname'') = Some (Path ''/etc/hostname'')"
    and "snd (snd (result p)) = [''cat'', ''/tmp/hostname'']"
    by (simp_all add: qv k env_file_def Env0_def)
  with c a b r show ?thesis by blast
qed

text \<open>Claim C7 as stated fails where the argument is a symbolic link: the file is
  mounted under the name of its target, and no mount is made at
  \<open>/tmp/localtime\<close>.\<close>

theorem file_argument_symlink_counterexample:
  "pname (Path ''/etc/localtime'') = ''localtime''
   \<and> returned (prepareEnv host_link env_file [''/etc/localtime'']) =
       Some (''clock'',
         [''--hostname'', ''clock'', ''--security-opt'', ''label=disable'',
          ''--security-opt'', ''seccomp=unconfined'', ''--network'', ''none'',
          ''--workdir'', ''/home/user'', ''-v'', ''/usr/share/zoneinfo/UTC:/tmp/UTC'',
          ''-e'', ''HOME=/home/user'', ''-e'', ''XDG_RUNTIME_DIR=/run/user/1000'',
          ''--user'', ''1000''],
         [''cat'', ''/tmp/UTC''])
   \<and> mounts_after (prepareEnv host_link env_file [''/etc/localtime''])
       = [(Path ''/tmp/UTC'', Path ''/usr/share/zoneinfo/UTC'')]"
  by code_simp

subsection \<open>The order of iteration over a set\<close>

text \<open>Only \<open>getArgs\<close> iterates over a set; every other step is the same under
  another order of iteration.\<close>

lemma gitCap_line_set_iter [simp]:
  "gitCap_line (h\<lparr>set_iter := it\<rparr>) = gitCap_line h"
  by (intro ext)
     (simp add: gitCap_line_def Let_def cong: if_cong list.case_cong option.case_cong)

lemma capabilities_set_iter:
  "\<forall>(name, doc, capability) \<in> set Capabilities.
     capability (h\<lparr>set_iter := it\<rparr>) = capability h"
  by (simp add: Capabilities_eq)
     (intro conjI ext;
      simp add: manageImageCap_def rootCap_def privilegedCap_def terminalCap_def ipcCap_def
        x11Cap_def pulseaudioCap_def gitCap_def editorCap_def sshCap_def gpgCap_def webcamCap_def
        driCap_def kvmCap_def tunCap_def seccompCap_def selinuxCap_def setuidCap_def ptraceCap_def
        networkCap_def mountCwdCap_def mountRunCap_def mountCacheCap_def autoUpdateCap_def
        uidmapCap_def os_environ_get_def Let_def
        cong: if_cong list.case_cong option.case_cong sum.case_cong)

lemma for_each_cong_set:
  "(\<And>x s. x \<in> set xs \<Longrightarrow> body x s = body' x s) \<Longrightarrow> for_each body xs s = for_each body' xs s"
  by (induction xs arbitrary: s) (auto split: sum.splits)

lemma applyCapabilities_set_iter:
  "applyCapabilities (h\<lparr>set_iter := it\<rparr>) Capabilities env = applyCapabilities h Capabilities env"
  unfolding applyCapabilities_def
proof (rule for_each_cong_set)
  fix x :: "string \<times> string \<times> Capability" and s
  assume x: "x \<in> set Capabilities"
  obtain name doc capability where c: "x = (name, doc, capability)"
    by (cases x)
  from capabilities_set_iter [where h = h and it = it] x c
  have "capability (h\<lparr>set_iter := it\<rparr>) = capability h"
    by blast
  then show "(case x of (name, doc, capability) \<Rightarrow>
                \<lambda>env. call_cap capability (h\<lparr>set_iter := it\<rparr>) (cap_get (capabilities env) name) env) s
           = (case x of (name, doc, capability) \<Rightarrow>
                \<lambda>env. call_cap capability h (cap_get (capabilities env) name) env) s"
    by (simp add: call_cap_def c)
qed

lemma apply_settings_set_iter:
  "apply_settings (h\<lparr>set_iter := it\<rparr>) env = apply_settings h env"
  by (simp add: apply_settings_def Let_def
      cong: if_cong list.case_cong option.case_cong sum.case_cong)

lemma file_argument_set_iter:
  "file_argument (h\<lparr>set_iter := it\<rparr>) env cliArgs = file_argument h env cliArgs"
  by (simp add: file_argument_def cong: if_cong option.case_cong)

lemma validateEnv_set_iter:
  "validateEnv (h\<lparr>set_iter := it\<rparr>) env = validateEnv h env"
  by (simp add: validateEnv_def check_selinux_sockets_def check_uid_def check_syscaps_def
      check_mount_labels_def check_mount_perms_def check_home_mount_def
      check_image_management_def call_cap_def selinuxCap_def uidmapCap_def mountRunCap_def
      manageImageCap_def label_differs_def Let_def
      cong: if_cong list.case_cong option.case_cong sum.case_cong prod.case_cong)

lemma getArgs_set_iter:
  "fst (getArgs (h\<lparr>set_iter := it\<rparr>) c) = fst (getArgs h c)"
  "mount_flags (h\<lparr>set_iter := it\<rparr>) c = mount_flags h c"
  by (simp_all add: getArgs_fst mount_flags_def cong: option.case_cong)


lemma valid_set_iter_mset:
  assumes "valid_set_iter a" and "valid_set_iter b"
  shows "mset (b xs) = mset (a xs)"
proof -
  from assms have "distinct (a xs)" "distinct (b xs)" "set (b xs) = set (a xs)"
    by (simp_all add: valid_set_iter_def)
  then show ?thesis
    by (simp add: set_eq_iff_mset_eq_distinct)
qed

lemma valid_set_iter_single:
  assumes "valid_set_iter a" and "valid_set_iter b" and "length (remdups xs) \<le> 1"
  shows "b xs = a xs"
proof -
  from assms(1,2) have d: "distinct (a xs)" "distinct (b xs)"
    and s: "set (a xs) = set xs" "set (b xs) = set xs"
    by (simp_all add: valid_set_iter_def)
  from assms(3) have "card (set xs) \<le> 1"
    by (simp add: card_set)
  with d s have l: "length (a xs) \<le> 1" "length (b xs) \<le> 1"
    by (metis distinct_card)+
  show ?thesis
  proof (cases "a xs")
    case Nil
    with s show ?thesis by simp
  next
    case (Cons x ys)
    with l(1) have a: "a xs = [x]" by simp
    with s have "set (b xs) = {x}" by simp
    with l(2) have "b xs = [x]"
      by (cases "b xs") auto
    with a show ?thesis by simp
  qed
qed

lemma prepareEnv_set_iter_Inl:
  "prepareEnv (h\<lparr>set_iter := it\<rparr>) env cliArgs = Inl e \<longleftrightarrow> prepareEnv h env cliArgs = Inl e"
  by (simp add: prepareEnv_cases applyCapabilities_set_iter apply_settings_set_iter
      file_argument_set_iter validateEnv_set_iter split: sum.splits prod.splits)

text \<open>
  Claim C5, as amended. Two compilations of the same environment and CLI
  arguments on the same host, under any two orders of iteration over a set
  (the order depends on the hash seed of the process): raise the same error or
  both return; they return the same name and the same commandArgs, leave the
  same environment, and their runtimeArgs are equal before and after the
  \<open>--cap-add\<close> flags, which are the same flags in the two orders of iteration.
  The mount and environ flags are in the same order. With at most one distinct
  system capability the triples are identical.
\<close>

theorem prepareEnv_set_order:
  assumes "valid_set_iter (set_iter h)" and "valid_set_iter it"
  shows "(\<forall>e. prepareEnv (h\<lparr>set_iter := it\<rparr>) env cliArgs = Inl e
               \<longleftrightarrow> prepareEnv h env cliArgs = Inl e)
   \<and> (\<forall>p. prepareEnv h env cliArgs = Inr p \<longrightarrow>
         (\<exists>p' pre post.
            prepareEnv (h\<lparr>set_iter := it\<rparr>) env cliArgs = Inr p'
          \<and> env_after p' = env_after p \<and> cliArgs_after p' = cliArgs_after p
          \<and> warnings p' = warnings p
          \<and> fst (result p') = fst (result p) \<and> snd (snd (result p')) = snd (snd (result p))
          \<and> fst (snd (result p)) =
               pre @ concat (map (\<lambda>cap. [''--cap-add'', cap])
                              (set_iter h (ExecContext.syscaps (ctx (env_after p))))) @ post
          \<and> fst (snd (result p')) =
               pre @ concat (map (\<lambda>cap. [''--cap-add'', cap])
                              (it (ExecContext.syscaps (ctx (env_after p))))) @ post
          \<and> mset (it (ExecContext.syscaps (ctx (env_after p))))
               = mset (set_iter h (ExecContext.syscaps (ctx (env_after p))))
          \<and> (length (remdups (ExecContext.syscaps (ctx (env_after p)))) \<le> 1
               \<longrightarrow> result p' = result p)))"
proof (intro conjI allI impI)
  fix e
  show "prepareEnv (h\<lparr>set_iter := it\<rparr>) env cliArgs = Inl e
          \<longleftrightarrow> prepareEnv h env cliArgs = Inl e"
    by (rule prepareEnv_set_iter_Inl)
next
  fix p
  assume r: "prepareEnv h env cliArgs = Inr p"
  then obtain env1 env2 xargs env3 cli' fileArg env4 ws where
    s: "applyCapabilities h Capabilities env = Inr env1"
       "apply_settings h env1 = Inr (env2, xargs)"
       "file_argument h env2 cliArgs = Inr (env3, cli', fileArg)"
       "validateEnv h env3 = Inr (env4, ws)"
    and p: "p = \<lparr>env_after = (join_userns env4)\<lparr>ctx := fst (getArgs h (ctx (join_userns env4)))\<rparr>,
          cliArgs_after = cli', warnings = ws,
          result = (name (join_userns env4),
                    xargs @ snd (getArgs h (ctx (join_userns env4))),
                    assemble_command env3 cli' fileArg)\<rparr>"
    by (rule prepareEnv_InrE)
  define c where "c = ctx (join_userns env4)"
  define h' where "h' = h\<lparr>set_iter := it\<rparr>"
  define p' where "p' = \<lparr>env_after = (join_userns env4)\<lparr>ctx := fst (getArgs h c)\<rparr>,
          cliArgs_after = cli', warnings = ws,
          result = (name (join_userns env4), xargs @ snd (getArgs h' c),
                    assemble_command env3 cli' fileArg)\<rparr>"
  define pre where "pre = xargs
     @ (if seLinuxLabel c \<noteq> [] then [''--security-opt'', ''label='' @ seLinuxLabel c] else [])
     @ (if seccomp c \<noteq> [] then [''--security-opt'', ''seccomp='' @ seccomp c] else [])
     @ (if networkNamespace c \<noteq> [] then [''--network'', networkNamespace c] else [])
     @ [''--workdir'', pstr (if cwd c = Path0 then ExecContext.home c else cwd c)]
     @ mount_flags h c"
  define post where "post = environ_flags c @ execArgs c"
  have sc: "ExecContext.syscaps (ctx (env_after p)) = ExecContext.syscaps c"
    by (simp add: p c_def getArgs_fst)
  have run: "prepareEnv h' env cliArgs = Inr p'"
    by (simp add: prepareEnv_cases h'_def applyCapabilities_set_iter apply_settings_set_iter
        file_argument_set_iter validateEnv_set_iter s getArgs_set_iter p'_def c_def)
  have a: "fst (snd (result p)) =
             pre @ concat (map (\<lambda>cap. [''--cap-add'', cap]) (set_iter h (ExecContext.syscaps c)))
               @ post"
    by (simp add: p c_def [symmetric] getArgs_snd pre_def post_def syscap_flags_def)
  have b: "fst (snd (result p')) =
             pre @ concat (map (\<lambda>cap. [''--cap-add'', cap]) (it (ExecContext.syscaps c))) @ post"
    by (simp add: p'_def h'_def getArgs_snd pre_def post_def syscap_flags_def getArgs_set_iter)
  have m: "mset (it (ExecContext.syscaps c)) = mset (set_iter h (ExecContext.syscaps c))"
    using assms by (rule valid_set_iter_mset)
  have same: "result p' = result p" if "length (remdups (ExecContext.syscaps c)) \<le> 1"
  proof -
    from valid_set_iter_single [OF assms that]
    have "it (ExecContext.syscaps c) = set_iter h (ExecContext.syscaps c)" .
    with a b have "fst (snd (result p')) = fst (snd (result p))" by simp
    moreover have "fst (result p') = fst (result p)"
      "snd (snd (result p')) = snd (snd (result p))"
      by (simp_all add: p p'_def)
    ultimately show ?thesis by (simp add: prod_eq_iff)
  qed
  show "\<exists>p' pre post.
            prepareEnv (h\<lparr>set_iter := it\<rparr>) env cliArgs = Inr p'
          \<and> env_after p' = env_after p \<and> cliArgs_after p' = cliArgs_after p
          \<and> warnings p' = warnings p
          \<and> fst (result p') = fst (result p) \<and> snd (snd (result p')) = snd (snd (result p))
          \<and> fst (snd (result p)) =
               pre @ concat (map (\<lambda>cap. [''--cap-add'', cap])
                              (set_iter h (ExecContext.syscaps (ctx (env_after p))))) @ post
          \<and> fst (snd (result p')) =
               pre @ concat (map (\<lambda>cap. [''--cap-add'', cap])
                              (it (ExecContext.syscaps (ctx (env_after p))))) @ post
          \<and> mset (it (ExecContext.syscaps (ctx (env_after p))))
               = mset (set_iter h (ExecContext.syscaps (ctx (env_after p))))
          \<and> (length (remdups (ExecContext.syscaps (ctx (env_after p)))) \<le> 1
               \<longrightarrow> result p' = result p)"
    unfolding sc
    apply (rule exI [of _ p'], rule exI [of _ pre], rule exI [of _ post])
    apply (intro conjI impI)
             apply (rule run [unfolded h'_def])
            apply (simp add: p p'_def c_def)
           apply (simp add: p p'_def)
          apply (simp add: p p'_def)
         apply (simp add: p p'_def)
        apply (simp add: p p'_def)
       apply (rule a)
      apply (rule b)
     apply (rule m)
    apply (erule same)
    done
qed


lemma valid_set_iter_examples:
  "valid_set_iter (set_iter host0)" "valid_set_iter rev_iter" "valid_set_iter (set_iter host_rev)"
  by (simp_all add: valid_set_iter_def host0_def host_rev_def rev_iter_def)

text \<open>The environment that asks for \<open>setuid\<close> under the two orders.\<close>

lemma prepareEnv_setuid_value:
  "returned (prepareEnv host0 env_setuid []) =
     Some (''su'',
       [''--hostname'', ''su'', ''--security-opt'', ''label=disable'',
        ''--security-opt'', ''seccomp=unconfined'', ''--network'', ''none'',
        ''--workdir'', ''/home/user'', ''--cap-add'', ''SETUID'', ''--cap-add'', ''SETGID'',
        ''-e'', ''HOME=/home/user'', ''-e'', ''XDG_RUNTIME_DIR=/run/user/1000'',
        ''--user'', ''1000''],
       [])"
  "returned (prepareEnv host_rev env_setuid []) =
     Some (''su'',
       [''--hostname'', ''su'', ''--security-opt'', ''label=disable'',
        ''--security-opt'', ''seccomp=unconfined'', ''--network'', ''none'',
        ''--workdir'', ''/home/user'', ''--cap-add'', ''SETGID'', ''--cap-add'', ''SETUID'',
        ''-e'', ''HOME=/home/user'', ''-e'', ''XDG_RUNTIME_DIR=/run/user/1000'',
        ''--user'', ''1000''],
       [])"
  by code_simp+

theorem prepareEnv_set_order_witness:
  "valid_set_iter (set_iter host0) \<and> valid_set_iter rev_iter
   \<and> (\<exists>p p'. prepareEnv host0 env_setuid [] = Inr p
         \<and> prepareEnv (host0\<lparr>set_iter := rev_iter\<rparr>) env_setuid [] = Inr p'
         \<and> env_after p' = env_after p
         \<and> fst (result p') = fst (result p) \<and> snd (snd (result p')) = snd (snd (result p))
         \<and> mset (rev_iter (ExecContext.syscaps (ctx (env_after p))))
              = mset (set_iter host0 (ExecContext.syscaps (ctx (env_after p)))))"
proof -
  obtain p where r: "prepareEnv host0 env_setuid [] = Inr p"
    using prepareEnv_setuid_value(1) by (auto simp: returned_def split: sum.splits)
  from prepareEnv_set_order [OF valid_set_iter_examples(1,2), of env_setuid "[]"] r
  obtain p' where "prepareEnv (host0\<lparr>set_iter := rev_iter\<rparr>) env_setuid [] = Inr p'"
    "env_after p' = env_after p" "fst (result p') = fst (result p)"
    "snd (snd (result p')) = snd (snd (result p))"
    "mset (rev_iter (ExecContext.syscaps (ctx (env_after p))))
       = mset (set_iter host0 (ExecContext.syscaps (ctx (env_after p))))"
    by blast
  with r valid_set_iter_examples(1,2) show ?thesis by blast
qed

text \<open>Claim C5 as stated fails: from the same environment and CLI arguments, two
  runs that iterate over the set of system capabilities in different orders
  return different runtimeArgs.\<close>

theorem prepareEnv_set_order_counterexample:
  "valid_set_iter (set_iter host0) \<and> valid_set_iter (set_iter host_rev)
   \<and> host_rev = host0\<lparr>set_iter := rev_iter\<rparr>
   \<and> returned (prepareEnv host0 env_setuid []) \<noteq> returned (prepareEnv host_rev env_setuid [])"
proof -
  have "returned (prepareEnv host0 env_setuid []) \<noteq> returned (prepareEnv host_rev env_setuid [])"
    unfolding prepareEnv_setuid_value by simp
  with valid_set_iter_examples(1,3) show ?thesis
    by (simp add: host_rev_def)
qed

end
